theory Spec2Isabelle
  imports Main "HOL-Library.AList" "HOL-Library.Char_ord" "HOL-Library.List_Lexorder"
begin

section \<open>Python values\<close>

text \<open>
  The script \<^verbatim>\<open>db_doc.py\<close> moves catalog values (strings, integers, bits and SQL
  NULL) from the database rows into spreadsheet cells without declaring their types.
  A value that is only passed along is a \<open>pyval\<close>; names that the script compares
  (table, column and constraint-type names) are strings, as the catalog views declare them.
\<close>

datatype pyval = PNone | PBool bool | PInt int | PStr string

text \<open>Python's truth test \<^verbatim>\<open>if x\<close>: None, False, 0 and the empty string are falsy.\<close>

fun truthy :: "pyval \<Rightarrow> bool" where
  "truthy PNone = False"
| "truthy (PBool b) = b"
| "truthy (PInt i) = (i \<noteq> 0)"
| "truthy (PStr s) = (s \<noteq> [])"

text \<open>Python's \<^verbatim>\<open>str\<close> on these values: decimal digits for an integer, with a minus sign.\<close>

fun str_nat :: "nat \<Rightarrow> string" where
  "str_nat n =
     (if n < 10 then [''0123456789'' ! n]
      else str_nat (n div 10) @ [''0123456789'' ! (n mod 10)])"

declare str_nat.simps [simp del]

definition str_int :: "int \<Rightarrow> string" where
  "str_int i = (if i < 0 then CHR ''-'' # str_nat (nat (- i)) else str_nat (nat i))"

fun py_str :: "pyval \<Rightarrow> string" where
  "py_str PNone = ''None''"
| "py_str (PBool b) = (if b then ''True'' else ''False'')"
| "py_str (PInt i) = str_int i"
| "py_str (PStr s) = s"

text \<open>\<^verbatim>\<open>sep.join(xs)\<close>.\<close>

fun join :: "string \<Rightarrow> string list \<Rightarrow> string" where
  "join sep [] = []"
| "join sep [x] = x"
| "join sep (x # y # ys) = x @ sep @ join sep (y # ys)"

text \<open>\<^verbatim>\<open>any(xs)\<close> over the truth values of the elements.\<close>

definition py_any :: "bool list \<Rightarrow> bool" where
  "py_any bs = list_ex (\<lambda>b. b) bs"

section \<open>The records of the script\<close>

record Constraint =
  CONSTRAINT_NAME :: string
  CONSTRAINT_TYPE :: string
  CONSTRAINED_TABLE :: string
  CONSTRAINED_COLUMN :: string
  SOURCE_TABLE :: pyval
  SOURCE_COLUMN :: pyval

record Column =
  TABLE_NAME :: string
  COLUMN_NAME :: string
  IS_NULLABLE :: pyval
  DATA_TYPE :: pyval
  MAX_LENGTH :: pyval
  COLUMN_DEFAULT :: pyval
  IS_IDENTITY :: pyval

text \<open>
  A \<open>Constraint\<close> is a namedtuple of six fields, so as a Python object it is a
  non-empty tuple and always truthy. \<open>any(c for c in ...)\<close> tests exactly that.
\<close>

definition truthy_Constraint :: "Constraint \<Rightarrow> bool" where
  "truthy_Constraint c = True"

text \<open>
  Class \<open>Field\<close>. The attributes \<open>typ\<close>, \<open>size\<close>, \<open>default\<close>, \<open>null\<close> and
  \<open>notes\<close> of the source carry a prime here.
\<close>

record Field =
  key :: pyval
  name :: pyval
  cap :: pyval
  typ' :: pyval
  size' :: pyval
  default' :: pyval
  null' :: pyval
  uniq :: pyval
  ref :: pyval
  notes' :: pyval

text \<open>\<open>Field.__init__\<close>, its ten parameters in the order of the source.\<close>

definition Field_init ::
  "pyval \<Rightarrow> pyval \<Rightarrow> pyval \<Rightarrow> pyval \<Rightarrow> pyval \<Rightarrow> pyval \<Rightarrow> pyval \<Rightarrow> pyval \<Rightarrow> pyval \<Rightarrow> pyval \<Rightarrow> Field" where
  "Field_init k n c t sz d nl u r nt =
     \<lparr> key = k, name = n, cap = c, typ' = t,
       size' = (if truthy sz then PStr (py_str sz) else sz),
       default' = d, null' = nl, uniq = u, ref = r, notes' = nt \<rparr>"

definition to_row :: "Field \<Rightarrow> pyval list" where
  "to_row self =
     [key self, name self, cap self, typ' self, size' self,
      default' self, null' self, uniq self, ref self, notes' self]"

text \<open>Class \<open>TableDescription\<close>; its attribute \<open>fields\<close> carries a prime here.\<close>

record TableDescription =
  headers :: "string list"
  table_name :: string
  fields' :: "Field list"

definition TableDescription_init :: "string \<Rightarrow> TableDescription" where
  "TableDescription_init tn =
     \<lparr> headers = [''Primary/Foreign Key'', ''Field Name'',
         ''Caption'', ''Data Type'', ''Field Size'', ''Default'',
         ''Nullable'', ''Unique'', ''Reference'', ''Notes''],
       table_name = tn,
       fields' = [] \<rparr>"

section \<open>SchemaCache\<close>

record SchemaCache =
  tables :: "string list"
  columns :: "Column list"
  constraints :: "Constraint list"

definition SchemaCache_init :: SchemaCache where
  "SchemaCache_init = \<lparr> tables = [], columns = [], constraints = [] \<rparr>"

text \<open>
  \<open>get_column_reference\<close>: the loop runs over the FOREIGN KEY constraints in the order
  of the collection and appends to \<open>refs\<close>; \<open>collect_refs\<close> is that loop, with \<open>refs\<close>
  as its accumulator. \<open>"{0}.{1}".format(a, b)\<close> is \<open>str(a) + "." + str(b)\<close>.
\<close>

fun collect_refs :: "string \<Rightarrow> string \<Rightarrow> Constraint list \<Rightarrow> string list \<Rightarrow> string list" where
  "collect_refs table column [] refs = refs"
| "collect_refs table column (fk # fks) refs =
     collect_refs table column fks
       (if CONSTRAINED_TABLE fk = table \<and> CONSTRAINED_COLUMN fk = column
        then refs @ [py_str (SOURCE_TABLE fk) @ ''.'' @ py_str (SOURCE_COLUMN fk)]
        else refs)"

definition get_column_reference :: "SchemaCache \<Rightarrow> string \<Rightarrow> string \<Rightarrow> pyval" where
  "get_column_reference self table column =
     (let refs = collect_refs table column
                   (filter (\<lambda>c. CONSTRAINT_TYPE c = ''FOREIGN KEY'') (constraints self)) []
      in if length refs > 0 then PStr (join ''; '' refs) else PNone)"

definition is_column_a_key :: "SchemaCache \<Rightarrow> string \<Rightarrow> string \<Rightarrow> pyval" where
  "is_column_a_key self table column =
     (let vals0 = [];
          column_constraints =
            filter (\<lambda>c. CONSTRAINED_TABLE c = table \<and> CONSTRAINED_COLUMN c = column)
              (constraints self);
          vals1 = (if py_any (map truthy_Constraint
                        (filter (\<lambda>c. CONSTRAINT_TYPE c = ''PRIMARY KEY'') column_constraints))
                   then vals0 @ [''P''] else vals0);
          vals2 = (if py_any (map truthy_Constraint
                        (filter (\<lambda>c. CONSTRAINT_TYPE c = ''FOREIGN KEY'') column_constraints))
                   then vals1 @ [''F''] else vals1)
      in if length vals2 > 0 then PStr (join ''/'' vals2) else PNone)"

definition is_column_unique :: "SchemaCache \<Rightarrow> string \<Rightarrow> string \<Rightarrow> bool" where
  "is_column_unique self table column =
     py_any (map truthy_Constraint
       (filter (\<lambda>c. CONSTRAINT_TYPE c = ''UNIQUE'' \<and>
                    CONSTRAINED_TABLE c = table \<and>
                    CONSTRAINED_COLUMN c = column) (constraints self)))"

definition get_columns_for_table :: "SchemaCache \<Rightarrow> string \<Rightarrow> Column list" where
  "get_columns_for_table self table = filter (\<lambda>c. TABLE_NAME c = table) (columns self)"

section \<open>DDSpider.make_field\<close>

definition make_field :: "SchemaCache \<Rightarrow> string \<Rightarrow> Column \<Rightarrow> Field" where
  "make_field cache table col =
     (let field = Field_init PNone (PStr (COLUMN_NAME col)) PNone (DATA_TYPE col)
                    (MAX_LENGTH col) (COLUMN_DEFAULT col) (IS_NULLABLE col) PNone PNone PNone;
          field = field\<lparr>uniq := PBool (is_column_unique cache table (COLUMN_NAME col))\<rparr>;
          field = field\<lparr>key := is_column_a_key cache table (COLUMN_NAME col)\<rparr>;
          field = field\<lparr>ref := get_column_reference cache table (COLUMN_NAME col)\<rparr>
      in if truthy (IS_IDENTITY col) then field\<lparr>cap := PStr ''Identity''\<rparr> else field)"

section \<open>The catalog and the three queries of DBService\<close>

text \<open>
  The rows of the INFORMATION_SCHEMA views the queries read, with the columns they use.
  \<open>IsIdentity\<close> is \<open>COLUMNPROPERTY(object_id(table), column, 'IsIdentity')\<close> cast to a
  bit, which the server computes from the two names. \<open>DATABASE_NAME\<close> is what
  \<open>getinfo(SQL_DATABASE_NAME)\<close> answers.
\<close>

record TABLES_row =
  T_TABLE_CATALOG :: string
  T_TABLE_NAME :: string
  T_TABLE_TYPE :: string

record COLUMNS_row =
  C_TABLE_NAME :: string
  C_COLUMN_NAME :: string
  C_ORDINAL_POSITION :: int
  C_IS_NULLABLE :: pyval
  C_DATA_TYPE :: pyval
  C_CHARACTER_MAXIMUM_LENGTH :: pyval
  C_COLUMN_DEFAULT :: pyval

record TABLE_CONSTRAINTS_row =
  TC_CONSTRAINT_NAME :: string
  TC_CONSTRAINT_TYPE :: string
  TC_TABLE_NAME :: string

record KEY_COLUMN_USAGE_row =
  K_CONSTRAINT_NAME :: string
  K_TABLE_NAME :: string
  K_COLUMN_NAME :: string

record REFERENTIAL_CONSTRAINTS_row =
  R_CONSTRAINT_NAME :: string
  R_UNIQUE_CONSTRAINT_NAME :: string

record Database =
  DATABASE_NAME :: string
  TABLES :: "TABLES_row list"
  COLUMNS :: "COLUMNS_row list"
  TABLE_CONSTRAINTS :: "TABLE_CONSTRAINTS_row list"
  KEY_COLUMN_USAGE :: "KEY_COLUMN_USAGE_row list"
  REFERENTIAL_CONSTRAINTS :: "REFERENTIAL_CONSTRAINTS_row list"
  IsIdentity :: "string \<Rightarrow> string \<Rightarrow> pyval"

text \<open>
  What lies outside the script: the exceptions of pyodbc and openpyxl, the calls the
  script makes to the database and to the file system, and what those calls leave.
\<close>

datatype error = DatabaseError | TitleError | KeyError | IndexError | SaveError

datatype query = SELECT_TABLES | SELECT_COLUMNS | SELECT_CONSTRAINTS

record Worksheet =
  title :: string
  cells :: "((nat \<times> nat) \<times> pyval) list"

type_synonym Workbook = "Worksheet list"

text \<open>
  A call to the outside: \<open>pyodbc.connect\<close> on a connection string, the execution of one
  of the three queries, \<open>conn.close()\<close>, and \<open>Workbook.save\<close> of a workbook to a path.
  The content of a file is a workbook that a save completed, or what a save that raised
  part-way left at the path, which is no workbook.
\<close>

datatype call = Connect string | Execute query | Close | Save string Workbook

datatype file_content = Saved Workbook | Broken

text \<open>
  The state outside the script: the files written, the lines printed, and the calls made
  so far, each in order.
\<close>

record Host =
  files :: "(string \<times> file_content) list"
  stdout :: "string list"
  calls :: "call list"

definition logged :: "call \<Rightarrow> Host \<Rightarrow> Host" where
  "logged c host = host\<lparr>calls := calls host @ [c]\<rparr>"

text \<open>
  A \<open>World\<close> says what each call answers. The answer of a call to the database or to
  the file system may depend on the calls made before it (a server may refuse a first
  connection and accept a second one), so these answers take the calls made so far.
  \<^item> \<open>connect\<close>: \<open>pyodbc.connect\<close> on a connection string, the database or an error;
  \<^item> \<open>execute_fails\<close>: whether \<open>cursor().execute(sql).fetchall()\<close> raises for a query;
  \<^item> \<open>close_fails\<close>: whether \<open>conn.close()\<close> raises;
  \<^item> \<open>sheet_title\<close>: the title openpyxl gives a new sheet, from the titles the
    workbook already has and the title asked for, or the error it raises for a title
    it refuses; the workbook is in memory, and the answer depends on nothing else;
  \<^item> \<open>save_fails\<close>: whether \<open>Workbook.save\<close> raises for a path and a workbook;
  \<^item> \<open>save_leaves_file\<close>: whether a \<open>Workbook.save\<close> that raises has by then
    created the file at the path. openpyxl opens the target before it writes the
    workbook into it, so a save that raises while writing leaves a file.
\<close>

record World =
  connect :: "call list \<Rightarrow> string \<Rightarrow> error + Database"
  execute_fails :: "call list \<Rightarrow> query \<Rightarrow> error option"
  close_fails :: "call list \<Rightarrow> error option"
  sheet_title :: "string list \<Rightarrow> string \<Rightarrow> error + string"
  save_fails :: "call list \<Rightarrow> string \<Rightarrow> Workbook \<Rightarrow> error option"
  save_leaves_file :: "call list \<Rightarrow> string \<Rightarrow> Workbook \<Rightarrow> bool"

record DBService =
  conn :: Database
  dbname :: string

definition DBService_init :: "World \<Rightarrow> string \<Rightarrow> Host \<Rightarrow> (error + DBService) \<times> Host" where
  "DBService_init w connstr host =
     (case connect w (calls host) connstr of
        Inl e \<Rightarrow> (Inl e, logged (Connect connstr) host)
      | Inr db \<Rightarrow> (Inr \<lparr> conn = db, dbname = DATABASE_NAME db \<rparr>, logged (Connect connstr) host))"

definition close :: "World \<Rightarrow> DBService \<Rightarrow> Host \<Rightarrow> (error + unit) \<times> Host" where
  "close w self host =
     (case close_fails w (calls host) of
        Some e \<Rightarrow> (Inl e, logged Close host)
      | None \<Rightarrow> (Inr (), logged Close host))"

text \<open>
  The SELECT of \<open>get_tables\<close>. The comparison of names is equality of strings.
\<close>

definition select_tables :: "Database \<Rightarrow> TABLES_row list" where
  "select_tables db =
     [r. r \<leftarrow> TABLES db, T_TABLE_NAME r \<noteq> ''sysdiagrams'' \<and> T_TABLE_TYPE r = ''BASE TABLE'']"

definition get_tables :: "World \<Rightarrow> DBService \<Rightarrow> Host \<Rightarrow> (error + string list) \<times> Host" where
  "get_tables w self host =
     (case execute_fails w (calls host) SELECT_TABLES of
        Some e \<Rightarrow> (Inl e, logged (Execute SELECT_TABLES) host)
      | None \<Rightarrow> (Inr [T_TABLE_NAME r. r \<leftarrow> select_tables (conn self)],
                 logged (Execute SELECT_TABLES) host))"

text \<open>
  The SELECT of \<open>get_columns\<close>: COLUMNS joined with TABLES on the table name, ordered by
  table name and then ordinal position (a stable sort on the second key, then one on the
  first).
\<close>

definition select_columns :: "Database \<Rightarrow> (COLUMNS_row \<times> TABLES_row) list" where
  "select_columns db =
     sort_key (\<lambda>(c, t). C_TABLE_NAME c)
       (sort_key (\<lambda>(c, t). C_ORDINAL_POSITION c)
          [(c, t). c \<leftarrow> COLUMNS db, t \<leftarrow> TABLES db,
                   C_TABLE_NAME c = T_TABLE_NAME t,
                   T_TABLE_NAME t \<noteq> ''sysdiagrams'' \<and> T_TABLE_TYPE t = ''BASE TABLE''])"

definition get_columns :: "World \<Rightarrow> DBService \<Rightarrow> Host \<Rightarrow> (error + Column list) \<times> Host" where
  "get_columns w self host =
     (case execute_fails w (calls host) SELECT_COLUMNS of
        Some e \<Rightarrow> (Inl e, logged (Execute SELECT_COLUMNS) host)
      | None \<Rightarrow> (Inr
          [\<lparr> TABLE_NAME = C_TABLE_NAME c,
              COLUMN_NAME = C_COLUMN_NAME c,
              IS_NULLABLE = C_IS_NULLABLE c,
              DATA_TYPE = C_DATA_TYPE c,
              MAX_LENGTH = C_CHARACTER_MAXIMUM_LENGTH c,
              COLUMN_DEFAULT = C_COLUMN_DEFAULT c,
              IS_IDENTITY = IsIdentity (conn self) (C_TABLE_NAME c) (C_COLUMN_NAME c) \<rparr>.
           (c, t) \<leftarrow> select_columns (conn self)],
          logged (Execute SELECT_COLUMNS) host))"

text \<open>
  The SELECT of \<open>get_constraints\<close>. A LEFT JOIN keeps a row that has no partner, with
  NULL (\<open>None\<close>) for the partner's columns; a comparison with NULL matches nothing.
\<close>

definition left_join :: "('a \<Rightarrow> bool) \<Rightarrow> 'a list \<Rightarrow> 'a option list" where
  "left_join P xs = (let ms = filter P xs in if ms = [] then [None] else map Some ms)"

definition select_constraints ::
  "Database \<Rightarrow> (TABLE_CONSTRAINTS_row \<times> KEY_COLUMN_USAGE_row \<times>
      REFERENTIAL_CONSTRAINTS_row option \<times> KEY_COLUMN_USAGE_row option) list" where
  "select_constraints db =
     [(t, k, r, f).
        t \<leftarrow> TABLE_CONSTRAINTS db,
        k \<leftarrow> KEY_COLUMN_USAGE db,
        TC_CONSTRAINT_NAME t = K_CONSTRAINT_NAME k,
        r \<leftarrow> left_join (\<lambda>r. TC_CONSTRAINT_NAME t = R_CONSTRAINT_NAME r)
               (REFERENTIAL_CONSTRAINTS db),
        f \<leftarrow> left_join (\<lambda>f. case r of None \<Rightarrow> False
                               | Some r' \<Rightarrow> R_UNIQUE_CONSTRAINT_NAME r' = K_CONSTRAINT_NAME f)
               (KEY_COLUMN_USAGE db),
        TC_CONSTRAINT_TYPE t \<in> set [''PRIMARY KEY'', ''FOREIGN KEY'', ''UNIQUE''] \<and>
        TC_TABLE_NAME t \<noteq> ''sysdiagrams'']"

definition get_constraints :: "World \<Rightarrow> DBService \<Rightarrow> Host \<Rightarrow> (error + Constraint list) \<times> Host" where
  "get_constraints w self host =
     (case execute_fails w (calls host) SELECT_CONSTRAINTS of
        Some e \<Rightarrow> (Inl e, logged (Execute SELECT_CONSTRAINTS) host)
      | None \<Rightarrow> (Inr
          [\<lparr> CONSTRAINT_NAME = TC_CONSTRAINT_NAME t,
              CONSTRAINT_TYPE = TC_CONSTRAINT_TYPE t,
              CONSTRAINED_TABLE = TC_TABLE_NAME t,
              CONSTRAINED_COLUMN = K_COLUMN_NAME k,
              SOURCE_TABLE = (case f of None \<Rightarrow> PNone | Some f' \<Rightarrow> PStr (K_TABLE_NAME f')),
              SOURCE_COLUMN = (case f of None \<Rightarrow> PNone | Some f' \<Rightarrow> PStr (K_COLUMN_NAME f')) \<rparr>.
           (t, k, r, f) \<leftarrow> select_constraints (conn self)],
          logged (Execute SELECT_CONSTRAINTS) host))"

text \<open>\<open>SchemaCache.bootstrap\<close>: the three reads, then the connection is closed.\<close>

definition bootstrap :: "World \<Rightarrow> DBService \<Rightarrow> Host \<Rightarrow> (error + SchemaCache) \<times> Host" where
  "bootstrap w dbservice host =
     (let cache = SchemaCache_init in
      case get_tables w dbservice host of (Inl e, host) \<Rightarrow> (Inl e, host) | (Inr ts, host) \<Rightarrow>
      let cache = cache\<lparr>tables := ts\<rparr> in
      case get_columns w dbservice host of (Inl e, host) \<Rightarrow> (Inl e, host) | (Inr cs, host) \<Rightarrow>
      let cache = cache\<lparr>columns := cs\<rparr> in
      case get_constraints w dbservice host of (Inl e, host) \<Rightarrow> (Inl e, host) | (Inr ks, host) \<Rightarrow>
      let cache = cache\<lparr>constraints := ks\<rparr> in
      case close w dbservice host of (Inl e, host) \<Rightarrow> (Inl e, host) | (Inr u, host) \<Rightarrow>
      (Inr cache, host))"

section \<open>The workbook\<close>

text \<open>
  An openpyxl worksheet keeps its cells in a dictionary from (row, column) to the cell,
  here an association list from the coordinates to the cell's value. \<open>ws.cell(r, c)\<close>
  answers the cell at the coordinates and creates it, with value \<open>None\<close>, when the
  sheet has none there. A workbook is the list of its sheets; a reference to a sheet of
  the workbook is its position in that list.
\<close>

definition cell :: "nat \<Rightarrow> nat \<Rightarrow> Worksheet \<Rightarrow> Worksheet" where
  "cell r c ws =
     (case map_of (cells ws) (r, c) of
        None \<Rightarrow> ws\<lparr>cells := AList.update (r, c) PNone (cells ws)\<rparr>
      | Some v \<Rightarrow> ws)"

text \<open>\<open>ws.cell(row=r, column=c).value = v\<close>, and the assignment to a cell already there.\<close>

definition set_value :: "nat \<Rightarrow> nat \<Rightarrow> pyval \<Rightarrow> Worksheet \<Rightarrow> Worksheet" where
  "set_value r c v ws = (let ws = cell r c ws in ws\<lparr>cells := AList.update (r, c) v (cells ws)\<rparr>)"

text \<open>The value read back from a sheet: \<open>None\<close> where it has no cell.\<close>

definition cell_value :: "Worksheet \<Rightarrow> nat \<Rightarrow> nat \<Rightarrow> pyval" where
  "cell_value ws r c = (case map_of (cells ws) (r, c) of None \<Rightarrow> PNone | Some v \<Rightarrow> v)"

text \<open>\<open>ws.max_row\<close>: the largest row that has a cell, and 1 for a sheet with no cell.\<close>

definition max_row :: "Worksheet \<Rightarrow> nat" where
  "max_row ws = fold max (map (\<lambda>((r, c), v). r) (cells ws)) 1"

text \<open>
  \<open>Workbook()\<close> starts with one sheet, titled \<open>Sheet\<close>. \<open>get_sheet_by_name\<close> answers
  the first sheet of that title and raises KeyError when there is none.
\<close>

definition Workbook_new :: Workbook where
  "Workbook_new = [\<lparr> title = ''Sheet'', cells = [] \<rparr>]"

fun find_sheet :: "Workbook \<Rightarrow> string \<Rightarrow> nat option" where
  "find_sheet [] nm = None"
| "find_sheet (s # ss) nm =
     (if title s = nm then Some 0 else map_option Suc (find_sheet ss nm))"

definition get_sheet_by_name :: "Workbook \<Rightarrow> string \<Rightarrow> error + nat" where
  "get_sheet_by_name wb nm = (case find_sheet wb nm of None \<Rightarrow> Inl KeyError | Some i \<Rightarrow> Inr i)"

definition remove_sheet :: "Workbook \<Rightarrow> nat \<Rightarrow> Workbook" where
  "remove_sheet wb i = take i wb @ drop (Suc i) wb"

definition create_sheet :: "World \<Rightarrow> Workbook \<Rightarrow> string \<Rightarrow> error + Workbook" where
  "create_sheet w wb t =
     (case sheet_title w (map title wb) t of
        Inl e \<Rightarrow> Inl e
      | Inr t' \<Rightarrow> Inr (wb @ [\<lparr> title = t', cells = [] \<rparr>]))"

section \<open>XLService\<close>

record XLService =
  fullpath :: string
  wkbk :: Workbook

text \<open>
  \<open>"{0}\\{1}_DataDictionary.xlsx".format(directory, dbname)\<close>: the two parts are
  separated by one backslash, the character of code 0x5C.
\<close>

definition XLService_init :: "string \<Rightarrow> string \<Rightarrow> error + XLService" where
  "XLService_init directory dbnm =
     (let wb = Workbook_new in
      case get_sheet_by_name wb ''Sheet'' of
        Inl e \<Rightarrow> Inl e
      | Inr i \<Rightarrow> Inr \<lparr> fullpath = directory @ [CHR 0x5C] @ dbnm @ ''_DataDictionary.xlsx'',
                      wkbk = remove_sheet wb i \<rparr>)"

text \<open>\<open>_add_sheet\<close>: the new workbook and the reference to the sheet found under the name.\<close>

definition add_sheet :: "World \<Rightarrow> XLService \<Rightarrow> string \<Rightarrow> error + XLService \<times> nat" where
  "add_sheet w self tn =
     (case create_sheet w (wkbk self) tn of
        Inl e \<Rightarrow> Inl e
      | Inr wb \<Rightarrow>
          (case get_sheet_by_name wb tn of
             Inl e \<Rightarrow> Inl e
           | Inr i \<Rightarrow> Inr (self\<lparr>wkbk := wb\<rparr>, i)))"

text \<open>\<open>_write_headers\<close>: \<open>j\<close> runs over \<open>range(1, width + 1)\<close>.\<close>

definition write_headers :: "Worksheet \<Rightarrow> string list \<Rightarrow> Worksheet" where
  "write_headers ws hs =
     (let width = length hs in
      fold (\<lambda>j ws. set_value 1 j (PStr (hs ! (j - 1))) ws) [1..<width + 1] ws)"

text \<open>
  \<open>_write_fields\<close>. \<open>iter_rows(min_row, max_col, max_row)\<close> yields, for each row from
  \<open>min_row\<close> to \<open>max_row\<close>, the cells of columns 1 to \<open>max_col\<close>, creating them as
  \<open>ws.cell\<close> does when the row is produced (\<open>iter_row\<close>). The outer \<open>zip\<close> pairs the
  rows with the fields' value lists and stops with the shorter of the two; the inner one
  pairs the cells of a row with the values.
\<close>

definition iter_row :: "nat \<Rightarrow> nat \<Rightarrow> Worksheet \<Rightarrow> Worksheet" where
  "iter_row r max_col ws = fold (\<lambda>c ws. cell r c ws) [1..<max_col + 1] ws"

definition write_row :: "nat \<Rightarrow> nat \<Rightarrow> pyval list \<Rightarrow> Worksheet \<Rightarrow> Worksheet" where
  "write_row r max_col vals ws =
     fold (\<lambda>(c, val) ws. ws\<lparr>cells := AList.update (r, c) val (cells ws)\<rparr>)
       (zip [1..<max_col + 1] vals) (iter_row r max_col ws)"

definition write_fields :: "Worksheet \<Rightarrow> TableDescription \<Rightarrow> Worksheet" where
  "write_fields ws table_desc =
     (let min_row = 2;
          max_col = length (headers table_desc);
          max_row = length (fields' table_desc) + 1;
          fds = map to_row (fields' table_desc)
      in fold (\<lambda>(r, field) ws. write_row r max_col field ws)
           (zip [min_row..<max_row + 1] fds) ws)"

definition describe_table :: "World \<Rightarrow> XLService \<Rightarrow> TableDescription \<Rightarrow> error + XLService" where
  "describe_table w self table_desc =
     (case add_sheet w self (table_name table_desc) of
        Inl e \<Rightarrow> Inl e
      | Inr (self, i) \<Rightarrow>
          (let wksht = wkbk self ! i;
               wksht = write_headers wksht (headers table_desc);
               wksht = write_fields wksht table_desc
           in Inr (self\<lparr>wkbk := (wkbk self)[i := wksht]\<rparr>)))"

text \<open>
  \<open>save\<close> is the only call of the script that writes a file. When openpyxl's \<open>save\<close>
  returns, the workbook is at the path. When it raises, the error is the result, and the
  file it had opened at the path by then, if any, stays there: the script has no
  handler that would remove it.
\<close>

definition save :: "World \<Rightarrow> XLService \<Rightarrow> Host \<Rightarrow> (error + unit) \<times> Host" where
  "save w self host =
     (let host' = logged (Save (fullpath self) (wkbk self)) host in
      case save_fails w (calls host) (fullpath self) (wkbk self) of
        Some e \<Rightarrow>
          (Inl e,
           if save_leaves_file w (calls host) (fullpath self) (wkbk self)
           then host'\<lparr>files := files host' @ [(fullpath self, Broken)]\<rparr>
           else host')
      | None \<Rightarrow> (Inr (), host'\<lparr>files := files host' @ [(fullpath self, Saved (wkbk self))]\<rparr>))"

section \<open>DDSpider and the entry point\<close>

record DDSpider =
  dbservice :: DBService
  cache :: SchemaCache
  xlservice :: XLService

definition DDSpider_init :: "DBService \<Rightarrow> SchemaCache \<Rightarrow> XLService \<Rightarrow> DDSpider" where
  "DDSpider_init dbsvc c xlsvc = \<lparr> dbservice = dbsvc, cache = c, xlservice = xlsvc \<rparr>"

text \<open>The inner loop of \<open>run\<close>: one field appended per column of the table.\<close>

definition build_desc :: "SchemaCache \<Rightarrow> string \<Rightarrow> TableDescription" where
  "build_desc c table =
     fold (\<lambda>col desc. desc\<lparr>fields' := fields' desc @ [make_field c table col]\<rparr>)
       (get_columns_for_table c table) (TableDescription_init table)"

text \<open>The outer loop of \<open>run\<close>, over the tables that are left.\<close>

fun run_tables :: "World \<Rightarrow> SchemaCache \<Rightarrow> string list \<Rightarrow> XLService \<Rightarrow> error + XLService" where
  "run_tables w c [] xl = Inr xl"
| "run_tables w c (table # rest) xl =
     (case describe_table w xl (build_desc c table) of
        Inl e \<Rightarrow> Inl e
      | Inr xl' \<Rightarrow> run_tables w c rest xl')"

definition run :: "World \<Rightarrow> DDSpider \<Rightarrow> Host \<Rightarrow> (error + DDSpider) \<times> Host" where
  "run w self host =
     (case run_tables w (cache self) (tables (cache self)) (xlservice self) of
        Inl e \<Rightarrow> (Inl e, host)
      | Inr xl \<Rightarrow>
          (case save w xl host of
             (Inl e, host') \<Rightarrow> (Inl e, host')
           | (Inr u, host') \<Rightarrow> (Inr (self\<lparr>xlservice := xl\<rparr>), host')))"

definition connection_string :: "string \<Rightarrow> string \<Rightarrow> string" where
  "connection_string server catalog =
     ''Driver={SQL Server Native Client 11.0};'' @
     (''Server='' @ server @ '';Database='' @ catalog @ '';'') @
     ''Trusted_Connection=yes;APP=DDSpider;''"

record Config =
  dbstr :: string

definition discoverdb :: "World \<Rightarrow> string \<Rightarrow> string \<Rightarrow> string \<Rightarrow> Host \<Rightarrow> (error + unit) \<times> Host" where
  "discoverdb w server catalog directory host =
     (let cstr = connection_string server catalog;
          config = \<lparr> dbstr = cstr \<rparr>
      in case DBService_init w (dbstr config) host of
           (Inl e, host) \<Rightarrow> (Inl e, host) | (Inr dbsvc, host) \<Rightarrow>
         (case bootstrap w dbsvc host of
           (Inl e, host) \<Rightarrow> (Inl e, host) | (Inr c, host) \<Rightarrow>
         (case XLService_init directory (dbname dbsvc) of
           Inl e \<Rightarrow> (Inl e, host) | Inr xl \<Rightarrow>
         (let spider = DDSpider_init dbsvc c xl
          in case run w spider host of
               (Inl e, host') \<Rightarrow> (Inl e, host')
             | (Inr spider', host') \<Rightarrow>
                 (Inr (), host'\<lparr>stdout := stdout host' @
                    [''Data Dictionary Created: '' @ fullpath (xlservice spider')]\<rparr>)))))"

section \<open>Notions used to state the properties\<close>

text \<open>
  A column is constrained by a kind of constraint when the collection holds a constraint
  of that kind whose constrained table and column are the pair.
\<close>

definition has_constraint :: "SchemaCache \<Rightarrow> string \<Rightarrow> string \<Rightarrow> string \<Rightarrow> bool" where
  "has_constraint self kind table column =
     (\<exists>c \<in> set (constraints self).
        CONSTRAINT_TYPE c = kind \<and> CONSTRAINED_TABLE c = table \<and> CONSTRAINED_COLUMN c = column)"

text \<open>The FOREIGN KEY constraints of a pair, in the order of the collection.\<close>

definition foreign_keys_of :: "SchemaCache \<Rightarrow> string \<Rightarrow> string \<Rightarrow> Constraint list" where
  "foreign_keys_of self table column =
     filter (\<lambda>c. CONSTRAINT_TYPE c = ''FOREIGN KEY'' \<and>
                  CONSTRAINED_TABLE c = table \<and> CONSTRAINED_COLUMN c = column) (constraints self)"

text \<open>
  The cells a sheet is expected to hold, as maps from (row, column) to a value: the header
  in row 1, one list of values in a row, and lists of values in the rows from 2 on.
\<close>

definition header_map :: "string list \<Rightarrow> (nat \<times> nat) \<Rightarrow> pyval option" where
  "header_map hs = (\<lambda>(r, c). if r = 1 \<and> 1 \<le> c \<and> c \<le> length hs then Some (PStr (hs ! (c - 1))) else None)"

definition row_map :: "nat \<Rightarrow> pyval list \<Rightarrow> (nat \<times> nat) \<Rightarrow> pyval option" where
  "row_map r vals = (\<lambda>(r', c). if r' = r \<and> 1 \<le> c \<and> c \<le> length vals then Some (vals ! (c - 1)) else None)"

definition rows_map :: "nat \<Rightarrow> pyval list list \<Rightarrow> (nat \<times> nat) \<Rightarrow> pyval option" where
  "rows_map wd rows = (\<lambda>(r, c). if 2 \<le> r \<and> r \<le> length rows + 1 \<and> 1 \<le> c \<and> c \<le> wd
                             then Some (rows ! (r - 2) ! (c - 1)) else None)"

text \<open>
  What a reader of a sheet sees: \<open>ws.max_column\<close> and \<open>ws.values\<close>, the values of
  the rows 1 to \<open>max_row\<close> in the columns 1 to \<open>max_column\<close>. \<open>grid_map\<close> is the
  cell dictionary of a sheet that holds exactly the given rows.
\<close>

definition max_column :: "Worksheet \<Rightarrow> nat" where
  "max_column ws = fold max (map (\<lambda>((r, c), v). c) (cells ws)) 1"

definition ws_values :: "Worksheet \<Rightarrow> pyval list list" where
  "ws_values ws =
     map (\<lambda>r. map (\<lambda>c. cell_value ws r c) [1..<max_column ws + 1]) [1..<max_row ws + 1]"

definition grid_map :: "nat \<Rightarrow> pyval list list \<Rightarrow> (nat \<times> nat) \<Rightarrow> pyval option" where
  "grid_map wd rows = (\<lambda>(r, c). if 1 \<le> r \<and> r \<le> length rows \<and> 1 \<le> c \<and> c \<le> wd
                             then Some (rows ! (r - 1) ! (c - 1)) else None)"

text \<open>
  The rows expected in the sheet of a table: the header, then one row per column of the
  table, in the order of \<open>get_columns_for_table\<close>. \<open>wb_invar\<close>: every sheet of the
  workbook is blank or holds exactly the rows of the table it is titled after.
  \<open>described\<close>: the sheet found under the table's name holds the table's rows.
\<close>

definition table_rows :: "SchemaCache \<Rightarrow> string \<Rightarrow> pyval list list" where
  "table_rows c T =
     map PStr (headers (TableDescription_init T)) #
     map (\<lambda>col. to_row (make_field c T col)) (get_columns_for_table c T)"

definition wb_invar :: "SchemaCache \<Rightarrow> Workbook \<Rightarrow> bool" where
  "wb_invar c wb =
     (\<forall>ws \<in> set wb. map_of (cells ws) = Map.empty \<or>
                     map_of (cells ws) = grid_map 10 (table_rows c (title ws)))"

definition described :: "SchemaCache \<Rightarrow> Workbook \<Rightarrow> string \<Rightarrow> bool" where
  "described c wb T =
     (\<exists>i. find_sheet wb T = Some i \<and> map_of (cells (wb ! i)) = grid_map 10 (table_rows c T))"

text \<open>
  A world in which the workbook library raises for none of the given titles, gives a
  new sheet the title asked for when no sheet has it yet, and saves a workbook that has
  a sheet without an error, whatever calls were made before.
\<close>

definition accepts :: "World \<Rightarrow> string list \<Rightarrow> bool" where
  "accepts w ts =
     ((\<forall>T \<in> set ts. \<forall>names. \<exists>t'. sheet_title w names T = Inr t' \<and> (T \<notin> set names \<longrightarrow> t' = T)) \<and>
      (\<forall>h p wb. wb \<noteq> [] \<longrightarrow> save_fails w h p wb = None))"

text \<open>
  The columns of a table in the catalog: the rows of the COLUMNS view for the table's
  name, each with the base table of TABLES the query of \<open>get_columns\<close> joins it with.
  \<open>ordinal\<close> is the ordinal position of such a row and \<open>column_of\<close> the \<open>Column\<close> the
  script makes of it.
\<close>

definition catalog_columns :: "Database \<Rightarrow> string \<Rightarrow> (COLUMNS_row \<times> TABLES_row) list" where
  "catalog_columns db T =
     filter (\<lambda>(c, t). C_TABLE_NAME c = T)
       [(c, t). c \<leftarrow> COLUMNS db, t \<leftarrow> TABLES db,
                C_TABLE_NAME c = T_TABLE_NAME t,
                T_TABLE_NAME t \<noteq> ''sysdiagrams'' \<and> T_TABLE_TYPE t = ''BASE TABLE'']"

definition ordinal :: "COLUMNS_row \<times> TABLES_row \<Rightarrow> int" where
  "ordinal r = C_ORDINAL_POSITION (fst r)"

definition column_of :: "Database \<Rightarrow> COLUMNS_row \<times> TABLES_row \<Rightarrow> Column" where
  "column_of db r =
     \<lparr> TABLE_NAME = C_TABLE_NAME (fst r),
       COLUMN_NAME = C_COLUMN_NAME (fst r),
       IS_NULLABLE = C_IS_NULLABLE (fst r),
       DATA_TYPE = C_DATA_TYPE (fst r),
       MAX_LENGTH = C_CHARACTER_MAXIMUM_LENGTH (fst r),
       COLUMN_DEFAULT = C_COLUMN_DEFAULT (fst r),
       IS_IDENTITY = IsIdentity db (C_TABLE_NAME (fst r)) (C_COLUMN_NAME (fst r)) \<rparr>"

text \<open>
  The calls of a run in their order: one connection, the three queries and the close
  (\<open>db_calls\<close>), then one save (\<open>io_calls\<close>).
\<close>

definition db_calls :: "string \<Rightarrow> call list" where
  "db_calls cstr =
     [Connect cstr, Execute SELECT_TABLES, Execute SELECT_COLUMNS,
      Execute SELECT_CONSTRAINTS, Close]"

definition io_calls :: "string \<Rightarrow> string \<Rightarrow> Workbook \<Rightarrow> call list" where
  "io_calls cstr p wb = db_calls cstr @ [Save p wb]"

text \<open>
  The path \<open>XLService.__init__\<close> makes of a directory and a database name: the two
  joined by one backslash, the separator of the Windows paths the script is written for.
\<close>

definition output_path :: "string \<Rightarrow> string \<Rightarrow> string" where
  "output_path directory dbnm = directory @ [CHR 0x5C] @ dbnm @ ''_DataDictionary.xlsx''"

text \<open>The calls of the log that save a workbook.\<close>

definition is_save :: "call \<Rightarrow> bool" where
  "is_save c = (case c of Save p wb \<Rightarrow> True | Connect s \<Rightarrow> False | Execute q \<Rightarrow> False | Close \<Rightarrow> False)"

section \<open>Example data\<close>

text \<open>
  A schema with \<open>Users(id identity primary key, email unique, org_id references Orgs.id)\<close>,
  a table \<open>Links\<close> whose \<open>id\<close> is a primary key and carries two foreign keys, to
  \<open>A.id\<close> and \<open>B.ref\<close>, and a table \<open>Empty\<close> that has no column.
\<close>

definition demo_constraints :: "Constraint list" where
  "demo_constraints =
     [\<lparr> CONSTRAINT_NAME = ''PK_Users'', CONSTRAINT_TYPE = ''PRIMARY KEY'',
         CONSTRAINED_TABLE = ''Users'', CONSTRAINED_COLUMN = ''id'',
         SOURCE_TABLE = PNone, SOURCE_COLUMN = PNone \<rparr>,
      \<lparr> CONSTRAINT_NAME = ''UQ_Users_email'', CONSTRAINT_TYPE = ''UNIQUE'',
         CONSTRAINED_TABLE = ''Users'', CONSTRAINED_COLUMN = ''email'',
         SOURCE_TABLE = PNone, SOURCE_COLUMN = PNone \<rparr>,
      \<lparr> CONSTRAINT_NAME = ''FK_Users_Orgs'', CONSTRAINT_TYPE = ''FOREIGN KEY'',
         CONSTRAINED_TABLE = ''Users'', CONSTRAINED_COLUMN = ''org_id'',
         SOURCE_TABLE = PStr ''Orgs'', SOURCE_COLUMN = PStr ''id'' \<rparr>,
      \<lparr> CONSTRAINT_NAME = ''PK_Links'', CONSTRAINT_TYPE = ''PRIMARY KEY'',
         CONSTRAINED_TABLE = ''Links'', CONSTRAINED_COLUMN = ''id'',
         SOURCE_TABLE = PNone, SOURCE_COLUMN = PNone \<rparr>,
      \<lparr> CONSTRAINT_NAME = ''FK_Links_A'', CONSTRAINT_TYPE = ''FOREIGN KEY'',
         CONSTRAINED_TABLE = ''Links'', CONSTRAINED_COLUMN = ''id'',
         SOURCE_TABLE = PStr ''A'', SOURCE_COLUMN = PStr ''id'' \<rparr>,
      \<lparr> CONSTRAINT_NAME = ''FK_Links_B'', CONSTRAINT_TYPE = ''FOREIGN KEY'',
         CONSTRAINED_TABLE = ''Links'', CONSTRAINED_COLUMN = ''id'',
         SOURCE_TABLE = PStr ''B'', SOURCE_COLUMN = PStr ''ref'' \<rparr>]"

definition demo_columns :: "Column list" where
  "demo_columns =
     [\<lparr> TABLE_NAME = ''Links'', COLUMN_NAME = ''id'', IS_NULLABLE = PStr ''NO'',
         DATA_TYPE = PStr ''int'', MAX_LENGTH = PNone, COLUMN_DEFAULT = PNone,
         IS_IDENTITY = PBool False \<rparr>,
      \<lparr> TABLE_NAME = ''Users'', COLUMN_NAME = ''id'', IS_NULLABLE = PStr ''NO'',
         DATA_TYPE = PStr ''int'', MAX_LENGTH = PNone, COLUMN_DEFAULT = PNone,
         IS_IDENTITY = PBool True \<rparr>,
      \<lparr> TABLE_NAME = ''Users'', COLUMN_NAME = ''email'', IS_NULLABLE = PStr ''NO'',
         DATA_TYPE = PStr ''varchar'', MAX_LENGTH = PInt 255, COLUMN_DEFAULT = PNone,
         IS_IDENTITY = PBool False \<rparr>,
      \<lparr> TABLE_NAME = ''Users'', COLUMN_NAME = ''org_id'', IS_NULLABLE = PStr ''YES'',
         DATA_TYPE = PStr ''int'', MAX_LENGTH = PNone, COLUMN_DEFAULT = PNone,
         IS_IDENTITY = PBool False \<rparr>]"

definition demo_cache :: SchemaCache where
  "demo_cache = \<lparr> tables = [''Links'', ''Users'', ''Empty''], columns = demo_columns,
                   constraints = demo_constraints \<rparr>"

text \<open>
  A database \<open>Shop\<close> whose catalog lists the base tables \<open>Users\<close>, \<open>Orgs\<close> and
  \<open>Empty\<close>, the diagram table \<open>sysdiagrams\<close> with its column and primary key, and a
  view. The COLUMNS view lists the columns of \<open>Users\<close> out of their ordinal order. A
  database \<open>Blank\<close> whose only base table is the diagram table.
\<close>

definition demo_db :: Database where
  "demo_db =
     \<lparr> DATABASE_NAME = ''Shop'',
       TABLES =
         [\<lparr> T_TABLE_CATALOG = ''Shop'', T_TABLE_NAME = ''Users'', T_TABLE_TYPE = ''BASE TABLE'' \<rparr>,
          \<lparr> T_TABLE_CATALOG = ''Shop'', T_TABLE_NAME = ''sysdiagrams'', T_TABLE_TYPE = ''BASE TABLE'' \<rparr>,
          \<lparr> T_TABLE_CATALOG = ''Shop'', T_TABLE_NAME = ''UserNames'', T_TABLE_TYPE = ''VIEW'' \<rparr>,
          \<lparr> T_TABLE_CATALOG = ''Shop'', T_TABLE_NAME = ''Orgs'', T_TABLE_TYPE = ''BASE TABLE'' \<rparr>,
          \<lparr> T_TABLE_CATALOG = ''Shop'', T_TABLE_NAME = ''Empty'', T_TABLE_TYPE = ''BASE TABLE'' \<rparr>],
       COLUMNS =
         [\<lparr> C_TABLE_NAME = ''Users'', C_COLUMN_NAME = ''email'', C_ORDINAL_POSITION = 2,
             C_IS_NULLABLE = PStr ''NO'', C_DATA_TYPE = PStr ''varchar'',
             C_CHARACTER_MAXIMUM_LENGTH = PInt 255, C_COLUMN_DEFAULT = PNone \<rparr>,
          \<lparr> C_TABLE_NAME = ''sysdiagrams'', C_COLUMN_NAME = ''diagram_id'', C_ORDINAL_POSITION = 1,
             C_IS_NULLABLE = PStr ''NO'', C_DATA_TYPE = PStr ''int'',
             C_CHARACTER_MAXIMUM_LENGTH = PNone, C_COLUMN_DEFAULT = PNone \<rparr>,
          \<lparr> C_TABLE_NAME = ''Users'', C_COLUMN_NAME = ''id'', C_ORDINAL_POSITION = 1,
             C_IS_NULLABLE = PStr ''NO'', C_DATA_TYPE = PStr ''int'',
             C_CHARACTER_MAXIMUM_LENGTH = PNone, C_COLUMN_DEFAULT = PNone \<rparr>,
          \<lparr> C_TABLE_NAME = ''Orgs'', C_COLUMN_NAME = ''id'', C_ORDINAL_POSITION = 1,
             C_IS_NULLABLE = PStr ''NO'', C_DATA_TYPE = PStr ''int'',
             C_CHARACTER_MAXIMUM_LENGTH = PNone, C_COLUMN_DEFAULT = PNone \<rparr>,
          \<lparr> C_TABLE_NAME = ''Users'', C_COLUMN_NAME = ''org_id'', C_ORDINAL_POSITION = 3,
             C_IS_NULLABLE = PStr ''YES'', C_DATA_TYPE = PStr ''int'',
             C_CHARACTER_MAXIMUM_LENGTH = PNone, C_COLUMN_DEFAULT = PNone \<rparr>,
          \<lparr> C_TABLE_NAME = ''UserNames'', C_COLUMN_NAME = ''email'', C_ORDINAL_POSITION = 1,
             C_IS_NULLABLE = PStr ''NO'', C_DATA_TYPE = PStr ''varchar'',
             C_CHARACTER_MAXIMUM_LENGTH = PInt 255, C_COLUMN_DEFAULT = PNone \<rparr>],
       TABLE_CONSTRAINTS =
         [\<lparr> TC_CONSTRAINT_NAME = ''PK_Users'', TC_CONSTRAINT_TYPE = ''PRIMARY KEY'',
             TC_TABLE_NAME = ''Users'' \<rparr>,
          \<lparr> TC_CONSTRAINT_NAME = ''PK_sysdiagrams'', TC_CONSTRAINT_TYPE = ''PRIMARY KEY'',
             TC_TABLE_NAME = ''sysdiagrams'' \<rparr>,
          \<lparr> TC_CONSTRAINT_NAME = ''PK_Orgs'', TC_CONSTRAINT_TYPE = ''PRIMARY KEY'',
             TC_TABLE_NAME = ''Orgs'' \<rparr>,
          \<lparr> TC_CONSTRAINT_NAME = ''UQ_Users_email'', TC_CONSTRAINT_TYPE = ''UNIQUE'',
             TC_TABLE_NAME = ''Users'' \<rparr>,
          \<lparr> TC_CONSTRAINT_NAME = ''CK_Users'', TC_CONSTRAINT_TYPE = ''CHECK'',
             TC_TABLE_NAME = ''Users'' \<rparr>,
          \<lparr> TC_CONSTRAINT_NAME = ''FK_Users_Orgs'', TC_CONSTRAINT_TYPE = ''FOREIGN KEY'',
             TC_TABLE_NAME = ''Users'' \<rparr>],
       KEY_COLUMN_USAGE =
         [\<lparr> K_CONSTRAINT_NAME = ''PK_Users'', K_TABLE_NAME = ''Users'', K_COLUMN_NAME = ''id'' \<rparr>,
          \<lparr> K_CONSTRAINT_NAME = ''PK_sysdiagrams'', K_TABLE_NAME = ''sysdiagrams'',
             K_COLUMN_NAME = ''diagram_id'' \<rparr>,
          \<lparr> K_CONSTRAINT_NAME = ''PK_Orgs'', K_TABLE_NAME = ''Orgs'', K_COLUMN_NAME = ''id'' \<rparr>,
          \<lparr> K_CONSTRAINT_NAME = ''UQ_Users_email'', K_TABLE_NAME = ''Users'',
             K_COLUMN_NAME = ''email'' \<rparr>,
          \<lparr> K_CONSTRAINT_NAME = ''FK_Users_Orgs'', K_TABLE_NAME = ''Users'',
             K_COLUMN_NAME = ''org_id'' \<rparr>],
       REFERENTIAL_CONSTRAINTS =
         [\<lparr> R_CONSTRAINT_NAME = ''FK_Users_Orgs'', R_UNIQUE_CONSTRAINT_NAME = ''PK_Orgs'' \<rparr>],
       IsIdentity = (\<lambda>t c. PBool (t = ''Users'' \<and> c = ''id'')) \<rparr>"

definition blank_db :: Database where
  "blank_db =
     \<lparr> DATABASE_NAME = ''Blank'',
       TABLES =
         [\<lparr> T_TABLE_CATALOG = ''Blank'', T_TABLE_NAME = ''sysdiagrams'',
             T_TABLE_TYPE = ''BASE TABLE'' \<rparr>],
       COLUMNS = [],
       TABLE_CONSTRAINTS = [],
       KEY_COLUMN_USAGE = [],
       REFERENTIAL_CONSTRAINTS = [],
       IsIdentity = (\<lambda>t c. PBool False) \<rparr>"

text \<open>
  A world in which the two databases answer the connection strings of server \<open>srv\<close>
  and no call to the database fails. The workbook library refuses a title of more than
  31 characters and appends \<open>1\<close> to a title that is taken; saving a workbook that has no
  sheet raises, as openpyxl does, and a save that raises has opened its file.
\<close>

definition demo_world :: World where
  "demo_world =
     \<lparr> connect = (\<lambda>h s. if s = connection_string ''srv'' ''Shop'' then Inr demo_db
                           else if s = connection_string ''srv'' ''Blank'' then Inr blank_db
                           else Inl DatabaseError),
       execute_fails = (\<lambda>h q. None),
       close_fails = (\<lambda>h. None),
       sheet_title = (\<lambda>names t. if 31 < length t then Inl TitleError
                                  else if t \<in> set names then Inr (t @ ''1'') else Inr t),
       save_fails = (\<lambda>h p wb. if wb = [] then Some IndexError else None),
       save_leaves_file = (\<lambda>h p wb. True) \<rparr>"

definition host0 :: Host where
  "host0 = \<lparr> files = [], stdout = [], calls = [] \<rparr>"

definition demo_spider :: DDSpider where
  "demo_spider =
     DDSpider_init \<lparr> conn = demo_db, dbname = ''Shop'' \<rparr> demo_cache
       \<lparr> fullpath = ''C:'' @ [CHR 0x5C] @ ''Shop_DataDictionary.xlsx'', wkbk = [] \<rparr>"

text \<open>
  The same world with a server that refuses the first connection and would accept any
  later one, and with a disk on which every save raises after the file was opened.
\<close>

definition busy_server :: World where
  "busy_server =
     demo_world\<lparr>connect := (\<lambda>h s. if h = [] then Inl DatabaseError else Inr demo_db)\<rparr>"

definition disk_full :: World where
  "disk_full = demo_world\<lparr>save_fails := (\<lambda>h p wb. Some SaveError)\<rparr>"
section \<open>Properties of SchemaCache\<close>

lemma py_any_truthy_Constraint: "py_any (map truthy_Constraint cs) = (cs \<noteq> [])"
  by (induction cs) (simp_all add: py_any_def truthy_Constraint_def)

lemma filter_filter_nonempty:
  "(filter P (filter Q xs) \<noteq> []) = (\<exists>x \<in> set xs. Q x \<and> P x)"
  by (induction xs) auto

lemma any_kind:
  "py_any (map truthy_Constraint
     (filter (\<lambda>c. CONSTRAINT_TYPE c = kind)
        (filter (\<lambda>c. CONSTRAINED_TABLE c = table \<and> CONSTRAINED_COLUMN c = column) (constraints self))))
   = has_constraint self kind table column"
  unfolding py_any_truthy_Constraint filter_filter_nonempty has_constraint_def
  by blast

lemma is_column_a_key_eq:
  "is_column_a_key self table column =
     (if has_constraint self ''PRIMARY KEY'' table column
      then (if has_constraint self ''FOREIGN KEY'' table column then PStr ''P/F'' else PStr ''P'')
      else (if has_constraint self ''FOREIGN KEY'' table column then PStr ''F'' else PNone))"
  unfolding is_column_a_key_def Let_def any_kind
  by simp

text \<open>
  C2. \<open>is_column_a_key\<close> answers \<open>"P/F"\<close> exactly when the pair has both a PRIMARY KEY
  and a FOREIGN KEY constraint, \<open>"P"\<close> or \<open>"F"\<close> when it has only that one, and \<open>None\<close>
  when it has neither; it answers nothing else.
\<close>

theorem is_column_a_key_cases:
  "(is_column_a_key self table column = PStr ''P/F'' \<longleftrightarrow>
      has_constraint self ''PRIMARY KEY'' table column \<and> has_constraint self ''FOREIGN KEY'' table column) \<and>
   (has_constraint self ''PRIMARY KEY'' table column \<and> \<not> has_constraint self ''FOREIGN KEY'' table column
      \<longrightarrow> is_column_a_key self table column = PStr ''P'') \<and>
   (\<not> has_constraint self ''PRIMARY KEY'' table column \<and> has_constraint self ''FOREIGN KEY'' table column
      \<longrightarrow> is_column_a_key self table column = PStr ''F'') \<and>
   (\<not> has_constraint self ''PRIMARY KEY'' table column \<and> \<not> has_constraint self ''FOREIGN KEY'' table column
      \<longrightarrow> is_column_a_key self table column = PNone) \<and>
   is_column_a_key self table column \<in> {PNone, PStr ''P'', PStr ''F'', PStr ''P/F''}"
  unfolding is_column_a_key_eq
  by (cases "has_constraint self ''PRIMARY KEY'' table column";
      cases "has_constraint self ''FOREIGN KEY'' table column") simp_all

theorem is_column_a_key_cases_witness:
  "has_constraint demo_cache ''PRIMARY KEY'' ''Links'' ''id'' \<and>
   has_constraint demo_cache ''FOREIGN KEY'' ''Links'' ''id'' \<and>
   is_column_a_key demo_cache ''Links'' ''id'' = PStr ''P/F'' \<and>
   \<not> has_constraint demo_cache ''FOREIGN KEY'' ''Users'' ''id'' \<and>
   is_column_a_key demo_cache ''Users'' ''id'' = PStr ''P'' \<and>
   \<not> has_constraint demo_cache ''PRIMARY KEY'' ''Users'' ''org_id'' \<and>
   is_column_a_key demo_cache ''Users'' ''org_id'' = PStr ''F'' \<and>
   \<not> has_constraint demo_cache ''PRIMARY KEY'' ''Users'' ''email'' \<and>
   \<not> has_constraint demo_cache ''FOREIGN KEY'' ''Users'' ''email'' \<and>
   is_column_a_key demo_cache ''Users'' ''email'' = PNone"
  using is_column_a_key_cases [of demo_cache "''Links''" "''id''"]
        is_column_a_key_cases [of demo_cache "''Users''" "''id''"]
        is_column_a_key_cases [of demo_cache "''Users''" "''org_id''"]
        is_column_a_key_cases [of demo_cache "''Users''" "''email''"]
  by (simp add: has_constraint_def demo_cache_def demo_constraints_def)

lemma collect_refs_eq:
  "collect_refs table column ks refs =
     refs @ map (\<lambda>k. py_str (SOURCE_TABLE k) @ ''.'' @ py_str (SOURCE_COLUMN k))
              (filter (\<lambda>k. CONSTRAINED_TABLE k = table \<and> CONSTRAINED_COLUMN k = column) ks)"
  by (induction ks arbitrary: refs) simp_all

text \<open>
  C3. \<open>get_column_reference\<close> answers \<open>None\<close> when the pair has no FOREIGN KEY
  constraint; otherwise the strings \<open>referencedTable.referencedColumn\<close> of its FOREIGN
  KEY constraints, in the order of the collection, joined by \<open>"; "\<close>.
\<close>

theorem get_column_reference_spec:
  "(foreign_keys_of self table column = [] \<longrightarrow> get_column_reference self table column = PNone) \<and>
   (foreign_keys_of self table column \<noteq> [] \<longrightarrow>
      get_column_reference self table column =
        PStr (join ''; '' (map (\<lambda>k. py_str (SOURCE_TABLE k) @ ''.'' @ py_str (SOURCE_COLUMN k))
                (foreign_keys_of self table column))))"
  by (simp add: get_column_reference_def collect_refs_eq foreign_keys_of_def Let_def conj_commute conj_left_commute)

theorem get_column_reference_spec_witness:
  "foreign_keys_of demo_cache ''Links'' ''id'' \<noteq> [] \<and>
   get_column_reference demo_cache ''Links'' ''id'' = PStr ''A.id; B.ref'' \<and>
   foreign_keys_of demo_cache ''Users'' ''email'' = [] \<and>
   get_column_reference demo_cache ''Users'' ''email'' = PNone"
  using get_column_reference_spec [of demo_cache "''Links''" "''id''"]
        get_column_reference_spec [of demo_cache "''Users''" "''email''"]
  by (simp add: foreign_keys_of_def demo_cache_def demo_constraints_def)

section \<open>Properties of the sheet operations\<close>

lemma cells_cell:
  "map_of (cells (cell r c ws)) = (case map_of (cells ws) (r, c) of None \<Rightarrow> (map_of (cells ws))((r, c) \<mapsto> PNone) | Some v \<Rightarrow> map_of (cells ws))"
  by (simp add: cell_def update_conv' split: option.split)

lemma title_cell [simp]: "title (cell r c ws) = title ws"
  by (simp add: cell_def split: option.split)

lemma cells_set_value: "map_of (cells (set_value r c v ws)) = (map_of (cells ws))((r, c) \<mapsto> v)"
  by (simp add: set_value_def Let_def update_conv' cells_cell split: option.split)

lemma title_set_value [simp]: "title (set_value r c v ws) = title ws"
  by (simp add: set_value_def Let_def)

lemma write_headers_prefix:
  "k \<le> length hs \<Longrightarrow>
   map_of (cells (fold (\<lambda>j ws. set_value 1 j (PStr (hs ! (j - 1))) ws) [1..<k + 1] ws)) =
   map_of (cells ws) ++ header_map (take k hs)"
proof (induction k)
  case 0
  have "header_map (take 0 hs) = Map.empty" by (auto simp: header_map_def)
  then show ?case by simp
next
  case (Suc k)
  have "[1..<Suc k + 1] = [1..<k + 1] @ [Suc k]" by simp
  moreover have "(map_of (cells ws) ++ header_map (take k hs))((1, Suc k) \<mapsto> PStr (hs ! k)) =
        map_of (cells ws) ++ header_map (take (Suc k) hs)"
    using Suc.prems by (auto simp: header_map_def map_add_def fun_eq_iff less_Suc_eq_le split: option.split)
  ultimately show ?case using Suc by (simp add: cells_set_value del: upt_Suc)
qed

lemma cells_write_headers:
  "map_of (cells (write_headers ws hs)) = map_of (cells ws) ++ header_map hs"
  using write_headers_prefix [of "length hs" hs ws] by (simp add: write_headers_def Let_def)

lemma title_fold [simp]:
  "(\<And>x s. title (f x s) = title s) \<Longrightarrow> title (fold f xs ws) = title ws"
  by (induction xs arbitrary: ws) simp_all

lemma title_write_headers [simp]: "title (write_headers ws hs) = title ws"
  by (simp add: write_headers_def Let_def)

lemma cells_iter_row_prefix:
  "map_of (cells (fold (\<lambda>c ws. cell r c ws) [1..<k + 1] ws)) =
     (\<lambda>p. case map_of (cells ws) p of
             Some v \<Rightarrow> Some v
           | None \<Rightarrow> if fst p = r \<and> 1 \<le> snd p \<and> snd p \<le> k then Some PNone else None)"
proof (induction k)
  case 0
  then show ?case by (auto simp: fun_eq_iff split: option.split)
next
  case (Suc k)
  have "[1..<Suc k + 1] = [1..<k + 1] @ [Suc k]" by simp
  then show ?case using Suc
    by (auto simp add: cells_cell fun_eq_iff le_Suc_eq simp del: upt_Suc split: option.split)
qed

lemma cells_iter_row:
  "map_of (cells (iter_row r m ws)) =
     (\<lambda>p. case map_of (cells ws) p of
             Some v \<Rightarrow> Some v
           | None \<Rightarrow> if fst p = r \<and> 1 \<le> snd p \<and> snd p \<le> m then Some PNone else None)"
  unfolding iter_row_def by (rule cells_iter_row_prefix)

lemma title_iter_row [simp]: "title (iter_row r m ws) = title ws"
  by (simp add: iter_row_def)

lemma write_row_prefix:
  "k \<le> length vals \<Longrightarrow>
   map_of (cells (fold (\<lambda>(c, val) ws. ws\<lparr>cells := AList.update (r, c) val (cells ws)\<rparr>)
                    (zip [1..<k + 1] (take k vals)) base)) =
   map_of (cells base) ++ row_map r (take k vals)"
proof (induction k)
  case 0
  have "row_map r (take 0 vals) = Map.empty" by (auto simp: row_map_def)
  then show ?case by simp
next
  case (Suc k)
  then have k: "k < length vals" by simp
  have z: "zip [1..<Suc k + 1] (take (Suc k) vals) =
           zip [1..<k + 1] (take k vals) @ [(Suc k, vals ! k)]"
    using k by (simp add: take_Suc_conv_app_nth)
  have m: "(map_of (cells base) ++ row_map r (take k vals))((r, Suc k) \<mapsto> vals ! k) =
           map_of (cells base) ++ row_map r (take (Suc k) vals)"
    using k by (auto simp: row_map_def map_add_def fun_eq_iff less_Suc_eq_le nth_append
                      take_Suc_conv_app_nth split: option.split)
  show ?case using Suc.IH k unfolding z by (simp add: update_conv' m)
qed

lemma cells_write_row:
  assumes "length vals = m"
  shows "map_of (cells (write_row r m vals ws)) = map_of (cells ws) ++ row_map r vals"
proof -
  have "map_of (cells (write_row r m vals ws)) =
        map_of (cells (iter_row r m ws)) ++ row_map r vals"
    using write_row_prefix [of m vals r "iter_row r m ws"] assms
    by (simp add: write_row_def)
  also have "\<dots> = map_of (cells ws) ++ row_map r vals"
    using assms by (auto simp: cells_iter_row row_map_def map_add_def fun_eq_iff split: option.split)
  finally show ?thesis .
qed

lemma title_write_row [simp]: "title (write_row r m vals ws) = title ws"
  by (simp add: write_row_def split_def)

lemma write_fields_rows:
  "\<forall>row \<in> set rows. length row = wd \<Longrightarrow>
   map_of (cells (fold (\<lambda>(r, field) ws. write_row r wd field ws)
                    (zip [2..<length rows + 2] rows) ws)) =
   map_of (cells ws) ++ rows_map wd rows"
proof (induction rows rule: rev_induct)
  case Nil
  have "rows_map wd [] = Map.empty" by (auto simp: rows_map_def)
  then show ?case by simp
next
  case (snoc x xs)
  have u: "[2..<length (xs @ [x]) + 2] = [2..<length xs + 2] @ [length xs + 2]"
    by simp
  have z: "zip [2..<length (xs @ [x]) + 2] (xs @ [x]) =
           zip [2..<length xs + 2] xs @ [(length xs + 2, x)]"
    unfolding u by (simp del: upt_Suc)
  have lx: "length x = wd" using snoc.prems by simp
  have m: "map_of (cells ws) ++ rows_map wd xs ++ row_map (length xs + 2) x =
           map_of (cells ws) ++ rows_map wd (xs @ [x])"
    using lx by (auto simp: rows_map_def row_map_def map_add_def fun_eq_iff nth_append
                      split: option.split)
  have ih: "map_of (cells (fold (\<lambda>(r, field) ws. write_row r wd field ws)
                    (zip [2..<length xs + 2] xs) ws)) = map_of (cells ws) ++ rows_map wd xs"
    by (rule snoc.IH) (use snoc.prems in simp)
  have "map_of (cells (fold (\<lambda>(r, field) ws. write_row r wd field ws)
                    (zip [2..<length (xs @ [x]) + 2] (xs @ [x])) ws)) =
        map_of (cells (write_row (length xs + 2) wd x
           (fold (\<lambda>(r, field) ws. write_row r wd field ws) (zip [2..<length xs + 2] xs) ws)))"
    unfolding z by simp
  also have "\<dots> = map_of (cells (fold (\<lambda>(r, field) ws. write_row r wd field ws)
                    (zip [2..<length xs + 2] xs) ws)) ++ row_map (length xs + 2) x"
    by (rule cells_write_row [OF lx])
  also have "\<dots> = map_of (cells ws) ++ rows_map wd (xs @ [x])"
    unfolding ih by (rule m)
  finally show ?case .
qed

lemma length_to_row [simp]: "length (to_row f) = 10"
  by (simp add: to_row_def)

lemma cells_write_fields:
  assumes "length (headers d) = 10"
  shows "map_of (cells (write_fields ws d)) =
         map_of (cells ws) ++ rows_map 10 (map to_row (fields' d))"
  using write_fields_rows [of "map to_row (fields' d)" 10 ws] assms
  by (simp add: write_fields_def Let_def)

lemma title_write_fields [simp]: "title (write_fields ws d) = title ws"
  by (simp add: write_fields_def Let_def split_def)

lemma max_row_alt: "max_row ws = Max (insert 1 (fst ` dom (map_of (cells ws))))"
proof -
  have "max_row ws = Max (set (1 # map (\<lambda>((r, c), v). r) (cells ws)))"
    unfolding max_row_def by (rule Max.set_eq_fold [symmetric])
  moreover have "set (map (\<lambda>((r, c), v). r) (cells ws)) = fst ` dom (map_of (cells ws))"
    by (force simp: dom_map_of_conv_image_fst image_iff)
  ultimately show ?thesis by simp
qed

lemma max_column_alt: "max_column ws = Max (insert 1 (snd ` dom (map_of (cells ws))))"
proof -
  have "max_column ws = Max (set (1 # map (\<lambda>((r, c), v). c) (cells ws)))"
    unfolding max_column_def by (rule Max.set_eq_fold [symmetric])
  moreover have "set (map (\<lambda>((r, c), v). c) (cells ws)) = snd ` dom (map_of (cells ws))"
    by (force simp: dom_map_of_conv_image_fst image_iff)
  ultimately show ?thesis by simp
qed

lemma dom_grid_map: "dom (grid_map wd rows) = {1..length rows} \<times> {1..wd}"
  by (auto simp: grid_map_def dom_def split: if_splits)

lemma header_rows_grid:
  "header_map hs ++ rows_map (length hs) rows = grid_map (length hs) (map PStr hs # rows)"
  by (auto simp: header_map_def rows_map_def grid_map_def map_add_def fun_eq_iff nth_Cons'
                 numeral_2_eq_2 split: option.split)

lemma Max_insert_one: "1 \<le> n \<Longrightarrow> Max (insert 1 {1..n}) = (n::nat)"
  by (intro Max_eqI) auto

lemma ws_values_grid:
  assumes cm: "map_of (cells ws) = grid_map wd rows"
      and wd: "0 < wd" and rows: "rows \<noteq> []" and len: "\<forall>row \<in> set rows. length row = wd"
  shows "max_row ws = length rows" and "max_column ws = wd" and "ws_values ws = rows"
proof -
  have n: "1 \<le> length rows" using rows by (cases rows) simp_all
  have "fst ` ({1..length rows} \<times> {1..wd}) = {1..length rows}"
    using wd by (auto simp: image_iff Bex_def)
  then show mr: "max_row ws = length rows"
    using n Max_insert_one [of "length rows"] by (simp add: max_row_alt cm dom_grid_map)
  have "snd ` ({1..length rows} \<times> {1..wd}) = {1..wd}"
    using n by (auto simp: image_iff Bex_def)
  then show mc: "max_column ws = wd"
    using wd Max_insert_one [of wd] by (simp add: max_column_alt cm dom_grid_map)
  show "ws_values ws = rows"
  proof (rule nth_equalityI)
    show "length (ws_values ws) = length rows" by (simp add: ws_values_def mr del: upt_Suc)
  next
    fix i assume "i < length (ws_values ws)"
    then have i: "i < length rows" by (simp add: ws_values_def mr del: upt_Suc)
    then have li: "length (rows ! i) = wd" using len by simp
    show "ws_values ws ! i = rows ! i"
    proof (rule nth_equalityI)
      show "length (ws_values ws ! i) = length (rows ! i)"
        using i li by (simp add: ws_values_def mr mc del: upt_Suc)
    next
      fix j assume "j < length (ws_values ws ! i)"
      then have j: "j < wd" using i by (simp add: ws_values_def mr mc del: upt_Suc)
      show "ws_values ws ! i ! j = rows ! i ! j"
        using i j by (simp add: ws_values_def mr mc cell_value_def cm grid_map_def del: upt_Suc)
    qed
  qed
qed

section \<open>Properties of describe_table\<close>

lemma fold_append_fields:
  "fold (\<lambda>col desc. desc\<lparr>fields' := fields' desc @ [f col]\<rparr>) cols d =
   d\<lparr>fields' := fields' d @ map f cols\<rparr>"
  by (induction cols arbitrary: d) simp_all

lemma build_desc_eq:
  "build_desc c T =
     (TableDescription_init T)\<lparr>fields' := map (make_field c T) (get_columns_for_table c T)\<rparr>"
  by (simp add: build_desc_def fold_append_fields TableDescription_init_def)

lemma build_desc_simps [simp]:
  "fields' (build_desc c T) = map (make_field c T) (get_columns_for_table c T)"
  "headers (build_desc c T) = headers (TableDescription_init T)"
  "table_name (build_desc c T) = T"
  by (simp_all add: build_desc_eq TableDescription_init_def)

lemma length_headers_init [simp]: "length (headers (TableDescription_init T)) = 10"
  by (simp add: TableDescription_init_def)

lemma find_sheet_Some:
  "find_sheet wb T = Some i \<Longrightarrow> i < length wb \<and> title (wb ! i) = T"
  by (induction wb arbitrary: i) (auto split: if_splits)

lemma find_sheet_append:
  "find_sheet wb T = Some i \<Longrightarrow> find_sheet (wb @ ys) T = Some i"
  by (induction wb arbitrary: i) (auto split: if_splits)

lemma find_sheet_titles:
  "map title wb = map title wb' \<Longrightarrow> find_sheet wb T = find_sheet wb' T"
proof (induction wb arbitrary: wb')
  case Nil
  then show ?case by simp
next
  case (Cons s ss)
  then obtain s' ss' where "wb' = s' # ss'" by (cases wb') auto
  with Cons show ?case by auto
qed

lemma cells_described_sheet:
  "map_of (cells (write_fields (write_headers ws (headers (build_desc c T))) (build_desc c T))) =
   map_of (cells ws) ++ grid_map 10 (table_rows c T)"
proof -
  have "header_map (headers (TableDescription_init T)) ++
          rows_map (length (headers (TableDescription_init T)))
            (map to_row (map (make_field c T) (get_columns_for_table c T))) =
        grid_map 10 (table_rows c T)"
    unfolding header_rows_grid by (simp add: table_rows_def o_def)
  then show ?thesis
    by (simp add: cells_write_fields cells_write_headers flip: map_add_assoc)
qed

lemma map_add_same: "m ++ m = m"
  by (auto simp: map_add_def fun_eq_iff split: option.split)

lemma describe_table_unfold:
  assumes "describe_table w xl (build_desc c T) = Inr xl'"
  obtains t' i where
    "sheet_title w (map title (wkbk xl)) T = Inr t'"
    "find_sheet (wkbk xl @ [\<lparr>title = t', cells = []\<rparr>]) T = Some i"
    "xl' = xl\<lparr>wkbk := (wkbk xl @ [\<lparr>title = t', cells = []\<rparr>])
             [i := write_fields (write_headers ((wkbk xl @ [\<lparr>title = t', cells = []\<rparr>]) ! i)
                      (headers (build_desc c T))) (build_desc c T)]\<rparr>"
  using assms
  by (auto simp: describe_table_def add_sheet_def create_sheet_def get_sheet_by_name_def Let_def
           split: sum.splits option.splits prod.splits)

lemma describe_table_step:
  assumes d: "describe_table w xl (build_desc c T) = Inr xl'"
      and inv: "wb_invar c (wkbk xl)"
  shows "wb_invar c (wkbk xl')"
    and "described c (wkbk xl') T"
    and "\<And>T'. described c (wkbk xl) T' \<Longrightarrow> described c (wkbk xl') T'"
    and "fullpath xl' = fullpath xl"
    and "\<exists>t'. sheet_title w (map title (wkbk xl)) T = Inr t' \<and>
              map title (wkbk xl') = map title (wkbk xl) @ [t']"
proof -
  from d obtain t' i where
    st: "sheet_title w (map title (wkbk xl)) T = Inr t'" and
    fs: "find_sheet (wkbk xl @ [\<lparr>title = t', cells = []\<rparr>]) T = Some i" and
    xl': "xl' = xl\<lparr>wkbk := (wkbk xl @ [\<lparr>title = t', cells = []\<rparr>])
             [i := write_fields (write_headers ((wkbk xl @ [\<lparr>title = t', cells = []\<rparr>]) ! i)
                      (headers (build_desc c T))) (build_desc c T)]\<rparr>"
    by (rule describe_table_unfold)
  define wb1 where "wb1 = wkbk xl @ [\<lparr>title = t', cells = []\<rparr>]"
  define ws' where "ws' = write_fields (write_headers (wb1 ! i) (headers (build_desc c T))) (build_desc c T)"
  have wb': "wkbk xl' = wb1[i := ws']" by (simp add: xl' wb1_def ws'_def)
  have i: "i < length wb1" and ti: "title (wb1 ! i) = T"
    using find_sheet_Some [OF fs [folded wb1_def]] by simp_all
  have inv1: "wb_invar c wb1" using inv by (auto simp: wb_invar_def wb1_def)
  have "map_of (cells (wb1 ! i)) = Map.empty \<or> map_of (cells (wb1 ! i)) = grid_map 10 (table_rows c T)"
    using inv1 i ti unfolding wb_invar_def by (metis nth_mem)
  then have cws': "map_of (cells ws') = grid_map 10 (table_rows c T)"
    unfolding ws'_def cells_described_sheet by (auto simp: map_add_same)
  have tws': "title ws' = T" by (simp add: ws'_def ti)
  have titles: "map title (wb1[i := ws']) = map title wb1"
    using i ti tws' by (simp add: map_update list_update_same_conv)
  show "wb_invar c (wkbk xl')"
    unfolding wb' wb_invar_def
  proof
    fix ws assume "ws \<in> set (wb1[i := ws'])"
    then have "ws = ws' \<or> ws \<in> set wb1" using set_update_subset_insert by fastforce
    then show "map_of (cells ws) = Map.empty \<or> map_of (cells ws) = grid_map 10 (table_rows c (title ws))"
      using cws' tws' inv1 by (auto simp: wb_invar_def)
  qed
  have fs': "\<And>T'. find_sheet (wb1[i := ws']) T' = find_sheet wb1 T'"
    by (rule find_sheet_titles [OF titles])
  show "described c (wkbk xl') T"
    unfolding described_def wb' using fs i cws' by (auto simp: fs' wb1_def [symmetric])
  show "described c (wkbk xl') T'" if "described c (wkbk xl) T'" for T'
  proof -
    from that obtain j where j: "find_sheet (wkbk xl) T' = Some j"
      and cj: "map_of (cells (wkbk xl ! j)) = grid_map 10 (table_rows c T')"
      by (auto simp: described_def)
    have jl: "j < length (wkbk xl)" and tj: "title (wkbk xl ! j) = T'"
      using find_sheet_Some [OF j] by simp_all
    have j1: "find_sheet wb1 T' = Some j" unfolding wb1_def by (rule find_sheet_append [OF j])
    have "map_of (cells (wb1[i := ws'] ! j)) = grid_map 10 (table_rows c T')"
    proof (cases "j = i")
      case True
      then have "T' = T" using tj ti jl by (simp add: wb1_def nth_append)
      then show ?thesis using True i cws' by simp
    next
      case False
      then show ?thesis using cj jl by (simp add: wb1_def nth_append)
    qed
    then show ?thesis unfolding described_def wb' using j1 by (auto simp: fs')
  qed
  show "fullpath xl' = fullpath xl" by (simp add: xl')
  show "\<exists>t'. sheet_title w (map title (wkbk xl)) T = Inr t' \<and>
              map title (wkbk xl') = map title (wkbk xl) @ [t']"
    using st titles by (auto simp: wb' wb1_def)
qed

section \<open>Properties of run\<close>

lemma find_sheet_None: "find_sheet wb T = None \<longleftrightarrow> T \<notin> title ` set wb"
  by (induction wb) auto

lemma describe_table_total:
  assumes "\<forall>names. \<exists>t'. sheet_title w names T = Inr t' \<and> (T \<notin> set names \<longrightarrow> t' = T)"
  shows "\<exists>xl'. describe_table w xl (build_desc c T) = Inr xl'"
proof -
  from assms obtain t' where t': "sheet_title w (map title (wkbk xl)) T = Inr t'"
    and same: "T \<notin> set (map title (wkbk xl)) \<Longrightarrow> t' = T"
    by blast
  have "find_sheet (wkbk xl @ [\<lparr>title = t', cells = []\<rparr>]) T \<noteq> None"
    using same by (auto simp: find_sheet_None)
  then show ?thesis using t'
    by (auto simp: describe_table_def add_sheet_def create_sheet_def get_sheet_by_name_def Let_def
             split: sum.splits option.splits)
qed

lemma run_tables_total:
  "\<forall>T \<in> set ts. \<forall>names. \<exists>t'. sheet_title w names T = Inr t' \<and> (T \<notin> set names \<longrightarrow> t' = T) \<Longrightarrow>
   \<exists>xl'. run_tables w c ts xl = Inr xl'"
proof (induction ts arbitrary: xl)
  case Nil
  then show ?case by simp
next
  case (Cons T ts)
  then obtain xl1 where "describe_table w xl (build_desc c T) = Inr xl1"
    using describe_table_total [of w T xl c] by auto
  then show ?case using Cons by simp
qed

lemma run_tables_post:
  assumes "run_tables w c ts xl = Inr xl'" and "wb_invar c (wkbk xl)"
  shows "wb_invar c (wkbk xl') \<and>
         (\<forall>T. described c (wkbk xl) T \<or> T \<in> set ts \<longrightarrow> described c (wkbk xl') T) \<and>
         fullpath xl' = fullpath xl \<and>
         (\<exists>new. map title (wkbk xl') = map title (wkbk xl) @ new \<and>
                list_all2 (\<lambda>T t'. \<exists>names. sheet_title w names T = Inr t') ts new)"
  using assms
proof (induction ts arbitrary: xl)
  case Nil
  then show ?case by simp
next
  case (Cons T ts)
  from Cons.prems(1) obtain xl1 where
    d: "describe_table w xl (build_desc c T) = Inr xl1" and r: "run_tables w c ts xl1 = Inr xl'"
    by (auto split: sum.splits)
  note st = describe_table_step [OF d Cons.prems(2)]
  note ih = Cons.IH [OF r st(1)]
  from st(5) obtain t' where t': "sheet_title w (map title (wkbk xl)) T = Inr t'"
    "map title (wkbk xl1) = map title (wkbk xl) @ [t']" by blast
  from ih obtain new where new: "map title (wkbk xl') = map title (wkbk xl1) @ new"
    "list_all2 (\<lambda>T t'. \<exists>names. sheet_title w names T = Inr t') ts new" by blast
  have "map title (wkbk xl') = map title (wkbk xl) @ (t' # new)" using t' new by simp
  moreover have "list_all2 (\<lambda>T t'. \<exists>names. sheet_title w names T = Inr t') (T # ts) (t' # new)"
    using t' new by auto
  ultimately have "\<exists>new. map title (wkbk xl') = map title (wkbk xl) @ new \<and>
                list_all2 (\<lambda>T t'. \<exists>names. sheet_title w names T = Inr t') (T # ts) new" by blast
  moreover have "\<forall>T'. described c (wkbk xl) T' \<or> T' \<in> set (T # ts) \<longrightarrow> described c (wkbk xl') T'"
    using ih st(2) st(3) by auto
  ultimately show ?case using ih st(4) by simp
qed

lemma described_values:
  assumes "described c wb T"
  shows "\<exists>i. get_sheet_by_name wb T = Inr i \<and> i < length wb \<and> title (wb ! i) = T \<and>
             max_row (wb ! i) = length (get_columns_for_table c T) + 1 \<and>
             ws_values (wb ! i) = table_rows c T"
proof -
  from assms obtain i where i: "find_sheet wb T = Some i"
    and cm: "map_of (cells (wb ! i)) = grid_map 10 (table_rows c T)"
    by (auto simp: described_def)
  have len: "\<forall>row \<in> set (table_rows c T). length row = 10"
    by (auto simp: table_rows_def)
  have ne: "table_rows c T \<noteq> []" by (simp add: table_rows_def)
  have l: "length (table_rows c T) = length (get_columns_for_table c T) + 1"
    by (simp add: table_rows_def)
  show ?thesis
    using find_sheet_Some [OF i] i ws_values_grid [OF cm _ ne len] l
    by (simp add: get_sheet_by_name_def)
qed

lemma wb_invar_Nil [simp]: "wb_invar c []"
  by (simp add: wb_invar_def)

section \<open>Properties of the entry point\<close>

lemma XLService_init_eq:
  "XLService_init directory dbnm =
     Inr \<lparr> fullpath = directory @ [CHR 0x5C] @ dbnm @ ''_DataDictionary.xlsx'', wkbk = [] \<rparr>"
  by (simp add: XLService_init_def Workbook_new_def get_sheet_by_name_def remove_sheet_def)

lemma logged_simps [simp]:
  "calls (logged c h) = calls h @ [c]"
  "files (logged c h) = files h"
  "stdout (logged c h) = stdout h"
  by (simp_all add: logged_def)

lemma DBService_init_host:
  "DBService_init w s host = (r, host') \<Longrightarrow> host' = logged (Connect s) host"
  by (auto simp: DBService_init_def split: sum.splits)

lemma get_tables_host:
  "get_tables w svc host = (r, host') \<Longrightarrow> host' = logged (Execute SELECT_TABLES) host"
  by (auto simp: get_tables_def split: option.splits)

lemma get_columns_host:
  "get_columns w svc host = (r, host') \<Longrightarrow> host' = logged (Execute SELECT_COLUMNS) host"
  by (auto simp: get_columns_def split: option.splits)

lemma get_constraints_host:
  "get_constraints w svc host = (r, host') \<Longrightarrow> host' = logged (Execute SELECT_CONSTRAINTS) host"
  by (auto simp: get_constraints_def split: option.splits)

lemma close_host:
  "close w svc host = (r, host') \<Longrightarrow> host' = logged Close host"
  by (auto simp: close_def split: option.splits)

lemma bootstrap_Inr:
  assumes "bootstrap w svc host = (Inr ch, host')"
  obtains h1 h2 h3 where
    "get_tables w svc host = (Inr (tables ch), h1)"
    "get_columns w svc h1 = (Inr (columns ch), h2)"
    "get_constraints w svc h2 = (Inr (constraints ch), h3)"
    "close w svc h3 = (Inr (), host')"
  using assms
  by (auto simp: bootstrap_def Let_def SchemaCache_init_def split: sum.splits prod.splits)

lemma bootstrap_host:
  assumes "bootstrap w svc host = (Inr ch, host')"
  shows "calls host' = calls host @
           [Execute SELECT_TABLES, Execute SELECT_COLUMNS, Execute SELECT_CONSTRAINTS, Close]"
    and "files host' = files host" and "stdout host' = stdout host"
proof -
  from assms obtain h1 h2 h3 where
    a: "get_tables w svc host = (Inr (tables ch), h1)"
       "get_columns w svc h1 = (Inr (columns ch), h2)"
       "get_constraints w svc h2 = (Inr (constraints ch), h3)"
       "close w svc h3 = (Inr (), host')"
    by (rule bootstrap_Inr)
  have "host' = logged Close (logged (Execute SELECT_CONSTRAINTS)
          (logged (Execute SELECT_COLUMNS) (logged (Execute SELECT_TABLES) host)))"
    using get_tables_host [OF a(1)] get_columns_host [OF a(2)] get_constraints_host [OF a(3)]
      close_host [OF a(4)] by simp
  then show "calls host' = calls host @
           [Execute SELECT_TABLES, Execute SELECT_COLUMNS, Execute SELECT_CONSTRAINTS, Close]"
    and "files host' = files host" and "stdout host' = stdout host"
    by simp_all
qed

lemma bootstrap_tables:
  "bootstrap w svc host = (Inr ch, host') \<Longrightarrow>
   tables ch = map T_TABLE_NAME (select_tables (conn svc))"
  by (erule bootstrap_Inr) (auto simp: get_tables_def split: option.splits)

lemma bootstrap_total:
  assumes "\<forall>h q. execute_fails w h q = None" and "\<forall>h. close_fails w h = None"
  shows "\<exists>ch host'. bootstrap w svc host = (Inr ch, host')"
  using assms
  by (simp add: bootstrap_def Let_def SchemaCache_init_def close_def get_tables_def
        get_columns_def get_constraints_def)

lemma run_tables_length:
  "run_tables w c ts xl = Inr xl' \<Longrightarrow> length (wkbk xl') = length (wkbk xl) + length ts"
proof (induction ts arbitrary: xl)
  case Nil
  then show ?case by simp
next
  case (Cons T ts)
  then obtain xl1 where
    d: "describe_table w xl (build_desc c T) = Inr xl1" and r: "run_tables w c ts xl1 = Inr xl'"
    by (auto split: sum.splits)
  have "length (wkbk xl1) = length (wkbk xl) + 1"
    using d by (rule describe_table_unfold) simp
  then show ?case using Cons.IH [OF r] by simp
qed

lemma run_tables_fullpath:
  "run_tables w c ts xl = Inr xl' \<Longrightarrow> fullpath xl' = fullpath xl"
proof (induction ts arbitrary: xl)
  case Nil
  then show ?case by simp
next
  case (Cons T ts)
  then obtain xl1 where
    d: "describe_table w xl (build_desc c T) = Inr xl1" and r: "run_tables w c ts xl1 = Inr xl'"
    by (auto split: sum.splits)
  have "fullpath xl1 = fullpath xl"
    using d by (rule describe_table_unfold) simp
  then show ?case using Cons.IH [OF r] by simp
qed

lemma run_unfold:
  assumes "run w self host = (Inr self', host')"
  obtains xl where "run_tables w (cache self) (tables (cache self)) (xlservice self) = Inr xl"
    and "save_fails w (calls host) (fullpath xl) (wkbk xl) = None"
    and "self' = self\<lparr>xlservice := xl\<rparr>"
    and "files host' = files host @ [(fullpath xl, Saved (wkbk xl))]"
    and "calls host' = calls host @ [Save (fullpath xl) (wkbk xl)]"
    and "stdout host' = stdout host"
  using assms
  by (auto simp: run_def save_def Let_def split: sum.splits option.splits prod.splits if_splits)

lemma run_total:
  assumes "accepts w (tables (cache self))" and "tables (cache self) \<noteq> []"
  shows "\<exists>self' host'. run w self host = (Inr self', host')"
proof -
  from assms(1) obtain xl where
    r: "run_tables w (cache self) (tables (cache self)) (xlservice self) = Inr xl"
    using run_tables_total [of "tables (cache self)" w "cache self" "xlservice self"]
    by (auto simp: accepts_def)
  have "wkbk xl \<noteq> []" using run_tables_length [OF r] assms(2) by auto
  then have "save_fails w (calls host) (fullpath xl) (wkbk xl) = None"
    using assms(1) by (simp add: accepts_def)
  then show ?thesis using r by (simp add: run_def save_def Let_def)
qed

lemma discoverdb_Inr:
  assumes "discoverdb w server catalog directory host = (Inr u, host')"
  obtains db ch xl' h where
    "connect w (calls host) (connection_string server catalog) = Inr db"
    "bootstrap w \<lparr> conn = db, dbname = DATABASE_NAME db \<rparr>
       (logged (Connect (connection_string server catalog)) host) = (Inr ch, h)"
    "run_tables w ch (tables ch)
       \<lparr> fullpath = directory @ [CHR 0x5C] @ DATABASE_NAME db @ ''_DataDictionary.xlsx'',
         wkbk = [] \<rparr> = Inr xl'"
    "save_fails w (calls h) (fullpath xl') (wkbk xl') = None"
    "files host' = files h @ [(fullpath xl', Saved (wkbk xl'))]"
    "calls host' = calls h @ [Save (fullpath xl') (wkbk xl')]"
    "stdout host' = stdout h @ [''Data Dictionary Created: '' @ fullpath xl']"
  using assms
  by (auto simp: discoverdb_def DBService_init_def XLService_init_eq DDSpider_init_def run_def
        save_def Let_def split: sum.splits option.splits prod.splits if_splits)

lemma discoverdb_total:
  assumes "connect w (calls host) (connection_string server catalog) = Inr db"
      and "\<forall>h q. execute_fails w h q = None" and "\<forall>h. close_fails w h = None"
      and "accepts w (map T_TABLE_NAME (select_tables db))"
      and "select_tables db \<noteq> []"
  shows "\<exists>host'. discoverdb w server catalog directory host = (Inr (), host')"
proof -
  obtain ch h where ch: "bootstrap w \<lparr> conn = db, dbname = DATABASE_NAME db \<rparr>
       (logged (Connect (connection_string server catalog)) host) = (Inr ch, h)"
    using bootstrap_total [OF assms(2,3)] by blast
  have t: "tables ch = map T_TABLE_NAME (select_tables db)"
    using bootstrap_tables [OF ch] by simp
  obtain self' host1 where
    "run w (DDSpider_init \<lparr> conn = db, dbname = DATABASE_NAME db \<rparr> ch
              \<lparr> fullpath = directory @ [CHR 0x5C] @ DATABASE_NAME db @ ''_DataDictionary.xlsx'',
                wkbk = [] \<rparr>) h = (Inr self', host1)"
    using run_total [of w "DDSpider_init \<lparr> conn = db, dbname = DATABASE_NAME db \<rparr> ch
              \<lparr> fullpath = directory @ [CHR 0x5C] @ DATABASE_NAME db @ ''_DataDictionary.xlsx'',
                wkbk = [] \<rparr>" h] assms(4,5) t
    by (auto simp: DDSpider_init_def)
  then show ?thesis using assms(1) ch
    by (simp add: discoverdb_def DBService_init_def XLService_init_eq Let_def)
qed

section \<open>Properties of Field and make_field\<close>

lemma make_field_eq:
  "make_field c t col =
     \<lparr> key = is_column_a_key c t (COLUMN_NAME col),
       name = PStr (COLUMN_NAME col),
       cap = (if truthy (IS_IDENTITY col) then PStr ''Identity'' else PNone),
       typ' = DATA_TYPE col,
       size' = (if truthy (MAX_LENGTH col) then PStr (py_str (MAX_LENGTH col)) else MAX_LENGTH col),
       default' = COLUMN_DEFAULT col,
       null' = IS_NULLABLE col,
       uniq = PBool (is_column_unique c t (COLUMN_NAME col)),
       ref = get_column_reference c t (COLUMN_NAME col),
       notes' = PNone \<rparr>"
  by (simp add: make_field_def Field_init_def Let_def)

text \<open>
  C4. For every column, \<open>make_field\<close> yields a Field whose caption is \<open>"Identity"\<close>
  when the column's identity flag is true and \<open>None\<close> when it is false. The test of
  the source is Python's truth test, so any falsy flag (a NULL bit too) leaves the
  caption \<open>None\<close>.
\<close>

theorem make_field_caption:
  "(IS_IDENTITY col = PBool True \<longrightarrow> cap (make_field c t col) = PStr ''Identity'') \<and>
   (IS_IDENTITY col = PBool False \<longrightarrow> cap (make_field c t col) = PNone) \<and>
   cap (make_field c t col) = (if truthy (IS_IDENTITY col) then PStr ''Identity'' else PNone)"
  by (simp add: make_field_eq)

theorem make_field_caption_witness:
  "IS_IDENTITY (demo_columns ! 1) = PBool True \<and>
   cap (make_field demo_cache ''Users'' (demo_columns ! 1)) = PStr ''Identity'' \<and>
   IS_IDENTITY (demo_columns ! 2) = PBool False \<and>
   cap (make_field demo_cache ''Users'' (demo_columns ! 2)) = PNone"
  using make_field_caption [of "demo_columns ! 1" demo_cache "''Users''"]
        make_field_caption [of "demo_columns ! 2" demo_cache "''Users''"]
  by (simp add: demo_columns_def)

text \<open>
  C5, as the claim states it, fails for the size: \<open>Field.__init__\<close> turns a truthy
  size into a string, so the column \<open>email\<close> of the example, whose \<open>MAX_LENGTH\<close> is the
  integer 255, yields a Field whose size is the string \<open>"255"\<close>.
\<close>

theorem make_field_size_counterexample:
  "MAX_LENGTH (demo_columns ! 2) = PInt 255 \<and>
   size' (make_field demo_cache ''Users'' (demo_columns ! 2)) = PStr ''255'' \<and>
   size' (make_field demo_cache ''Users'' (demo_columns ! 2)) \<noteq> MAX_LENGTH (demo_columns ! 2)"
  by (simp add: make_field_eq demo_columns_def str_int_def str_nat.simps)

text \<open>
  C5, amended. The Field built by \<open>make_field\<close> carries the column's \<open>COLUMN_NAME\<close>,
  \<open>DATA_TYPE\<close>, \<open>IS_NULLABLE\<close> and \<open>COLUMN_DEFAULT\<close> unchanged as its name, data type,
  nullable flag and default; its size is \<open>MAX_LENGTH\<close> unchanged when that is falsy
  (\<open>None\<close> or 0) and the string \<open>str(MAX_LENGTH)\<close> otherwise.
\<close>

theorem make_field_copies:
  "name (make_field c t col) = PStr (COLUMN_NAME col) \<and>
   typ' (make_field c t col) = DATA_TYPE col \<and>
   null' (make_field c t col) = IS_NULLABLE col \<and>
   default' (make_field c t col) = COLUMN_DEFAULT col \<and>
   size' (make_field c t col) =
     (if truthy (MAX_LENGTH col) then PStr (py_str (MAX_LENGTH col)) else MAX_LENGTH col)"
  by (simp add: make_field_eq)

theorem make_field_copies_witness:
  "name (make_field demo_cache ''Users'' (demo_columns ! 2)) = PStr ''email'' \<and>
   typ' (make_field demo_cache ''Users'' (demo_columns ! 2)) = PStr ''varchar'' \<and>
   null' (make_field demo_cache ''Users'' (demo_columns ! 2)) = PStr ''NO'' \<and>
   default' (make_field demo_cache ''Users'' (demo_columns ! 2)) = PNone \<and>
   size' (make_field demo_cache ''Users'' (demo_columns ! 2)) = PStr ''255'' \<and>
   size' (make_field demo_cache ''Users'' (demo_columns ! 1)) = PNone"
  using make_field_copies [of demo_cache "''Users''" "demo_columns ! 2"]
        make_field_copies [of demo_cache "''Users''" "demo_columns ! 1"]
  by (simp add: demo_columns_def str_int_def str_nat.simps)

lemma cell_value_write_row:
  assumes "length vals = m" and "1 \<le> c" and "c \<le> m"
  shows "cell_value (write_row r m vals ws) r c = vals ! (c - 1)"
  using assms by (simp add: cell_value_def cells_write_row row_map_def map_add_def)

text \<open>
  C10. \<open>Field.__init__\<close> stores a falsy size (\<open>None\<close>, the integer 0) unchanged and
  every other size as its string; \<open>to_row\<close> puts the stored size at index 4, and the
  row written to a sheet holds it in column 5. A \<open>MAX_LENGTH\<close> of 0 reaches the sheet as
  the number 0.
\<close>

theorem Field_init_size:
  "(\<not> truthy sz \<longrightarrow> size' (Field_init k n c t sz d nl u r nt) = sz) \<and>
   (truthy sz \<longrightarrow> size' (Field_init k n c t sz d nl u r nt) = PStr (py_str sz)) \<and>
   (sz = PNone \<or> sz = PInt 0 \<longrightarrow> size' (Field_init k n c t sz d nl u r nt) = sz) \<and>
   (\<forall>i. i \<noteq> 0 \<longrightarrow> size' (Field_init k n c t (PInt i) d nl u r nt) = PStr (str_int i)) \<and>
   to_row (Field_init k n c t sz d nl u r nt) ! 4 = size' (Field_init k n c t sz d nl u r nt) \<and>
   cell_value (write_row row 10 (to_row (Field_init k n c t sz d nl u r nt)) ws) row 5 =
     size' (Field_init k n c t sz d nl u r nt) \<and>
   (MAX_LENGTH col = PInt 0 \<longrightarrow>
      cell_value (write_row row 10 (to_row (make_field ch tb col)) ws) row 5 = PInt 0 \<and>
      cell_value (write_row row 10 (to_row (make_field ch tb col)) ws) row 5 \<noteq> PStr ''0'')"
proof -
  have "cell_value (write_row row 10 (to_row f) ws) row 5 = size' f" for f
    using cell_value_write_row [of "to_row f" 10 5 row ws] by (simp add: to_row_def)
  note cw = this
  have nth: "to_row f ! 4 = size' f" for f
    by (simp add: to_row_def)
  show ?thesis
    by (simp add: cw nth) (simp add: Field_init_def make_field_eq)
qed

theorem Field_init_size_witness:
  "size' (Field_init PNone PNone PNone PNone (PInt 0) PNone PNone PNone PNone PNone) = PInt 0 \<and>
   size' (Field_init PNone PNone PNone PNone PNone PNone PNone PNone PNone PNone) = PNone \<and>
   size' (Field_init PNone PNone PNone PNone (PInt 255) PNone PNone PNone PNone PNone) = PStr ''255'' \<and>
   size' (Field_init PNone PNone PNone PNone (PInt (- 1)) PNone PNone PNone PNone PNone) = PStr ''-1'' \<and>
   cell_value (write_row 2 10 (to_row (Field_init PNone PNone PNone PNone (PInt 0) PNone PNone PNone PNone PNone))
      \<lparr>title = ''Users'', cells = []\<rparr>) 2 5 = PInt 0"
  using Field_init_size [of "PInt 0" PNone PNone PNone PNone PNone PNone PNone PNone PNone 2
          "\<lparr>title = ''Users'', cells = []\<rparr>"]
        Field_init_size [of PNone PNone PNone PNone PNone PNone PNone PNone PNone PNone 2
          "\<lparr>title = ''Users'', cells = []\<rparr>"]
        Field_init_size [of "PInt 255" PNone PNone PNone PNone PNone PNone PNone PNone PNone 2
          "\<lparr>title = ''Users'', cells = []\<rparr>"]
        Field_init_size [of "PInt (- 1)" PNone PNone PNone PNone PNone PNone PNone PNone PNone 2
          "\<lparr>title = ''Users'', cells = []\<rparr>"]
  by (simp add: str_int_def str_nat.simps)

section \<open>The order of the cached columns\<close>

text \<open>
  The rows \<open>get_columns\<close> reads are ordered by table name and then by ordinal position,
  so the rows of one table are its columns in the catalog, sorted by ordinal position;
  the cached columns of the table are the \<open>Column\<close>s of those rows, in that order. Where
  the catalog has one base table of the name, those rows are the rows the COLUMNS view
  has for it.
\<close>

lemma select_columns_ordinal_order:
  "sorted (map (\<lambda>(c, t). C_ORDINAL_POSITION c)
             (filter (\<lambda>(c, t). C_TABLE_NAME c = T) (select_columns db)))"
proof -
  define rows where "rows =
    [(c, t). c \<leftarrow> COLUMNS db, t \<leftarrow> TABLES db,
             C_TABLE_NAME c = T_TABLE_NAME t,
             T_TABLE_NAME t \<noteq> ''sysdiagrams'' \<and> T_TABLE_TYPE t = ''BASE TABLE'']"
  have "filter (\<lambda>(c, t). C_TABLE_NAME c = T) (select_columns db) =
        filter (\<lambda>y. (\<lambda>(c, t). C_TABLE_NAME c) y = T)
          (sort_key (\<lambda>(c, t). C_TABLE_NAME c) (sort_key (\<lambda>(c, t). C_ORDINAL_POSITION c) rows))"
    by (simp add: select_columns_def rows_def split_def)
  also have "\<dots> = filter (\<lambda>y. (\<lambda>(c, t). C_TABLE_NAME c) y = T)
                      (sort_key (\<lambda>(c, t). C_ORDINAL_POSITION c) rows)"
    by (rule sort_key_stable)
  finally show ?thesis
    by (simp add: sorted_filter)
qed

lemma select_columns_of_table:
  "filter (\<lambda>(c, t). C_TABLE_NAME c = T) (select_columns db) =
   sort_key ordinal (catalog_columns db T)"
proof -
  define rows where "rows =
    [(c, t). c \<leftarrow> COLUMNS db, t \<leftarrow> TABLES db,
             C_TABLE_NAME c = T_TABLE_NAME t,
             T_TABLE_NAME t \<noteq> ''sysdiagrams'' \<and> T_TABLE_TYPE t = ''BASE TABLE'']"
  have o: "(\<lambda>(c, t). C_ORDINAL_POSITION c) = ordinal"
    by (simp add: ordinal_def fun_eq_iff)
  have "filter (\<lambda>(c, t). C_TABLE_NAME c = T) (select_columns db) =
        filter (\<lambda>y. (\<lambda>(c, t). C_TABLE_NAME c) y = T)
          (sort_key (\<lambda>(c, t). C_TABLE_NAME c) (sort_key ordinal rows))"
    by (simp add: select_columns_def rows_def split_def o [symmetric])
  also have "\<dots> = filter (\<lambda>y. (\<lambda>(c, t). C_TABLE_NAME c) y = T) (sort_key ordinal rows)"
    by (rule sort_key_stable)
  also have "\<dots> = sort_key ordinal (filter (\<lambda>y. (\<lambda>(c, t). C_TABLE_NAME c) y = T) rows)"
    by (rule filter_sort)
  also have "\<dots> = sort_key ordinal (catalog_columns db T)"
    by (simp add: catalog_columns_def rows_def split_def)
  finally show ?thesis .
qed

lemma cached_columns_of_table:
  assumes "bootstrap w svc host = (Inr ch, host')"
  shows "get_columns_for_table ch T =
         map (column_of (conn svc)) (sort_key ordinal (catalog_columns (conn svc) T))"
proof -
  from assms obtain h1 h2 where "get_columns w svc h1 = (Inr (columns ch), h2)"
    by (rule bootstrap_Inr)
  then have "columns ch = map (column_of (conn svc)) (select_columns (conn svc))"
    by (auto simp: get_columns_def column_of_def [abs_def] split_def split: option.splits)
  then have "get_columns_for_table ch T =
             map (column_of (conn svc))
               (filter (\<lambda>(c, t). C_TABLE_NAME c = T) (select_columns (conn svc)))"
    by (simp add: get_columns_for_table_def filter_map o_def column_of_def [abs_def] split_def)
  then show ?thesis by (simp only: select_columns_of_table)
qed

lemma join_single:
  assumes "filter (\<lambda>t. T_TABLE_NAME t = T \<and> T_TABLE_TYPE t = ''BASE TABLE'') ts = [t0]"
      and "T \<noteq> ''sysdiagrams''"
  shows "map fst (filter (\<lambda>(c, t). C_TABLE_NAME c = T)
           [(c, t). c \<leftarrow> cs, t \<leftarrow> ts,
                C_TABLE_NAME c = T_TABLE_NAME t,
                T_TABLE_NAME t \<noteq> ''sysdiagrams'' \<and> T_TABLE_TYPE t = ''BASE TABLE'']) =
         filter (\<lambda>c. C_TABLE_NAME c = T) cs"
proof (induction cs)
  case Nil
  then show ?case by simp
next
  case (Cons c cs)
  have inner: "map fst (filter (\<lambda>(c, t). C_TABLE_NAME c = T)
          (concat (map (\<lambda>t. if C_TABLE_NAME c = T_TABLE_NAME t
                 then if T_TABLE_NAME t \<noteq> ''sysdiagrams'' \<and> T_TABLE_TYPE t = ''BASE TABLE''
                      then [(c, t)] else [] else []) ts))) =
        (if C_TABLE_NAME c = T
         then map (\<lambda>t. c) (filter (\<lambda>t. T_TABLE_NAME t = T \<and> T_TABLE_TYPE t = ''BASE TABLE'') ts)
         else [])"
    using assms(2) by (induction ts) auto
  show ?case using Cons inner assms(1) by simp
qed

lemma catalog_columns_single:
  assumes "filter (\<lambda>t. T_TABLE_NAME t = T \<and> T_TABLE_TYPE t = ''BASE TABLE'') (TABLES db) = [t0]"
      and "T \<noteq> ''sysdiagrams''"
  shows "map fst (catalog_columns db T) = filter (\<lambda>c. C_TABLE_NAME c = T) (COLUMNS db)"
  unfolding catalog_columns_def by (rule join_single [OF assms])

section \<open>The claims about the pipeline\<close>

lemma accepts_demo: "accepts demo_world [''Users'', ''Orgs'', ''Empty'']"
  by (simp add: accepts_def demo_world_def)

lemma accepts_demo_cache: "accepts demo_world [''Links'', ''Users'', ''Empty'']"
  by (simp add: accepts_def demo_world_def)

lemma select_tables_demo: "map T_TABLE_NAME (select_tables demo_db) = [''Users'', ''Orgs'', ''Empty'']"
  by (simp add: select_tables_def demo_db_def)

lemma catalog_columns_Users:
  "map (\<lambda>r. (C_COLUMN_NAME (fst r), ordinal r)) (catalog_columns demo_db ''Users'') =
     [(''email'', 2), (''id'', 1), (''org_id'', 3)]"
  by (simp add: catalog_columns_def demo_db_def ordinal_def)

text \<open>
  C1. For every table \<open>T\<close> of the cached table list, a run that completes leaves, in the
  workbook it saved, a worksheet found under the name \<open>T\<close> with exactly
  \<open>len(columnsOf(T)) + 1\<close> rows: row 1 is the header, and row \<open>k + 2\<close> holds the values
  of the Field built from the \<open>k\<close>-th column of \<open>T\<close> (counting from 0). Whenever the
  cache is the one \<open>bootstrap\<close> read, the columns of \<open>T\<close> are its columns in the
  catalog sorted by ordinal position, so the rows below the header follow the ordinal
  positions. The run starts from the empty workbook \<open>XLService.__init__\<close> makes. The
  witness is the run of the example, whose catalog lists the columns of \<open>Users\<close> out of
  order.
\<close>

theorem run_writes_every_table:
  assumes "wkbk (xlservice self) = []"
      and "run w self host = (Inr self', host')"
      and "T \<in> set (tables (cache self))"
  shows "files host' = files host @
           [(fullpath (xlservice self'), Saved (wkbk (xlservice self')))] \<and>
         (\<exists>i. get_sheet_by_name (wkbk (xlservice self')) T = Inr i \<and>
             (let ws = wkbk (xlservice self') ! i;
                  cols = get_columns_for_table (cache self) T
              in title ws = T \<and>
                 max_row ws = length cols + 1 \<and>
                 length (ws_values ws) = length cols + 1 \<and>
                 ws_values ws =
                   map PStr (headers (TableDescription_init T)) #
                   map (\<lambda>col. to_row (make_field (cache self) T col)) cols \<and>
                 ws_values ws ! 0 = map PStr (headers (TableDescription_init T)) \<and>
                 (\<forall>k < length cols.
                    ws_values ws ! (k + 1) = to_row (make_field (cache self) T (cols ! k))) \<and>
                 (\<forall>svc h0 h1. bootstrap w svc h0 = (Inr (cache self), h1) \<longrightarrow>
                    (let rows = sort_key ordinal (catalog_columns (conn svc) T)
                     in cols = map (column_of (conn svc)) rows \<and>
                        sorted (map ordinal rows) \<and>
                        length (ws_values ws) = length (catalog_columns (conn svc) T) + 1 \<and>
                        ws_values ws =
                          map PStr (headers (TableDescription_init T)) #
                          map (\<lambda>r. to_row (make_field (cache self) T (column_of (conn svc) r))) rows \<and>
                        (\<forall>k < length rows.
                           ws_values ws ! (k + 1) =
                             to_row (make_field (cache self) T (column_of (conn svc) (rows ! k))))))))"
proof -
  from assms(2) obtain xl where
    r: "run_tables w (cache self) (tables (cache self)) (xlservice self) = Inr xl"
    and s: "self' = self\<lparr>xlservice := xl\<rparr>"
    and f: "files host' = files host @ [(fullpath xl, Saved (wkbk xl))]"
    by (rule run_unfold)
  have "described (cache self) (wkbk xl) T"
    using run_tables_post [OF r] assms(1,3) by simp
  from described_values [OF this] obtain i where
    i: "get_sheet_by_name (wkbk xl) T = Inr i" "title (wkbk xl ! i) = T"
       "max_row (wkbk xl ! i) = length (get_columns_for_table (cache self) T) + 1"
       "ws_values (wkbk xl ! i) = table_rows (cache self) T"
    by blast
  define cols where "cols = get_columns_for_table (cache self) T"
  have v: "length (ws_values (wkbk xl ! i)) = length cols + 1"
    "ws_values (wkbk xl ! i) =
       map PStr (headers (TableDescription_init T)) #
       map (\<lambda>col. to_row (make_field (cache self) T col)) cols"
    "ws_values (wkbk xl ! i) ! 0 = map PStr (headers (TableDescription_init T))"
    "\<forall>k < length cols. ws_values (wkbk xl ! i) ! (k + 1) = to_row (make_field (cache self) T (cols ! k))"
    by (simp_all add: i(4) table_rows_def cols_def)
  have link: "\<forall>svc h0 h1. bootstrap w svc h0 = (Inr (cache self), h1) \<longrightarrow>
                    (let rows = sort_key ordinal (catalog_columns (conn svc) T)
                     in cols = map (column_of (conn svc)) rows \<and>
                        sorted (map ordinal rows) \<and>
                        length (ws_values (wkbk xl ! i)) = length (catalog_columns (conn svc) T) + 1 \<and>
                        ws_values (wkbk xl ! i) =
                          map PStr (headers (TableDescription_init T)) #
                          map (\<lambda>r. to_row (make_field (cache self) T (column_of (conn svc) r))) rows \<and>
                        (\<forall>k < length rows.
                           ws_values (wkbk xl ! i) ! (k + 1) =
                             to_row (make_field (cache self) T (column_of (conn svc) (rows ! k)))))"
  proof (intro allI impI)
    fix svc h0 h1 assume b: "bootstrap w svc h0 = (Inr (cache self), h1)"
    define rows where "rows = sort_key ordinal (catalog_columns (conn svc) T)"
    have c: "cols = map (column_of (conn svc)) rows"
      unfolding cols_def rows_def by (rule cached_columns_of_table [OF b])
    have so: "sorted (map ordinal rows)" unfolding rows_def by (rule sorted_sort_key)
    have l: "length rows = length (catalog_columns (conn svc) T)" by (simp add: rows_def)
    have "\<forall>k < length rows. ws_values (wkbk xl ! i) ! (k + 1) =
            to_row (make_field (cache self) T (column_of (conn svc) (rows ! k)))"
      using v(4) c by simp
    moreover have "ws_values (wkbk xl ! i) =
        map PStr (headers (TableDescription_init T)) #
        map (\<lambda>r. to_row (make_field (cache self) T (column_of (conn svc) r))) rows"
      using v(2) c by (simp add: o_def)
    ultimately show "let rows = sort_key ordinal (catalog_columns (conn svc) T)
                     in cols = map (column_of (conn svc)) rows \<and>
                        sorted (map ordinal rows) \<and>
                        length (ws_values (wkbk xl ! i)) = length (catalog_columns (conn svc) T) + 1 \<and>
                        ws_values (wkbk xl ! i) =
                          map PStr (headers (TableDescription_init T)) #
                          map (\<lambda>r. to_row (make_field (cache self) T (column_of (conn svc) r))) rows \<and>
                        (\<forall>k < length rows.
                           ws_values (wkbk xl ! i) ! (k + 1) =
                             to_row (make_field (cache self) T (column_of (conn svc) (rows ! k))))"
      using c so l v(1) unfolding Let_def rows_def [symmetric] by simp
  qed
  have "\<exists>i. get_sheet_by_name (wkbk xl) T = Inr i \<and>
             (let ws = wkbk xl ! i; cols = get_columns_for_table (cache self) T
              in title ws = T \<and>
                 max_row ws = length cols + 1 \<and>
                 length (ws_values ws) = length cols + 1 \<and>
                 ws_values ws =
                   map PStr (headers (TableDescription_init T)) #
                   map (\<lambda>col. to_row (make_field (cache self) T col)) cols \<and>
                 ws_values ws ! 0 = map PStr (headers (TableDescription_init T)) \<and>
                 (\<forall>k < length cols.
                    ws_values ws ! (k + 1) = to_row (make_field (cache self) T (cols ! k))) \<and>
                 (\<forall>svc h0 h1. bootstrap w svc h0 = (Inr (cache self), h1) \<longrightarrow>
                    (let rows = sort_key ordinal (catalog_columns (conn svc) T)
                     in cols = map (column_of (conn svc)) rows \<and>
                        sorted (map ordinal rows) \<and>
                        length (ws_values ws) = length (catalog_columns (conn svc) T) + 1 \<and>
                        ws_values ws =
                          map PStr (headers (TableDescription_init T)) #
                          map (\<lambda>r. to_row (make_field (cache self) T (column_of (conn svc) r))) rows \<and>
                        (\<forall>k < length rows.
                           ws_values ws ! (k + 1) =
                             to_row (make_field (cache self) T (column_of (conn svc) (rows ! k)))))))"
    using i(1,2,3) v link unfolding Let_def cols_def [symmetric]
    by (intro exI [of _ i]) (simp add: cols_def)
  then show ?thesis using f by (simp add: s)
qed

theorem run_writes_every_table_witness:
  "\<exists>ch h1 self' host' i.
     bootstrap demo_world \<lparr> conn = demo_db, dbname = ''Shop'' \<rparr> host0 = (Inr ch, h1) \<and>
     run demo_world
       (DDSpider_init \<lparr> conn = demo_db, dbname = ''Shop'' \<rparr> ch
          \<lparr> fullpath = ''C:'' @ [CHR 0x5C] @ ''Shop_DataDictionary.xlsx'', wkbk = [] \<rparr>) h1 =
       (Inr self', host') \<and>
     get_sheet_by_name (wkbk (xlservice self')) ''Users'' = Inr i \<and>
     map (\<lambda>r. (C_COLUMN_NAME (fst r), ordinal r)) (catalog_columns demo_db ''Users'') =
       [(''email'', 2), (''id'', 1), (''org_id'', 3)] \<and>
     map COLUMN_NAME (get_columns_for_table ch ''Users'') = [''id'', ''email'', ''org_id''] \<and>
     max_row (wkbk (xlservice self') ! i) = 4 \<and>
     map (\<lambda>row. row ! 1) (ws_values (wkbk (xlservice self') ! i)) =
       [PStr ''Field Name'', PStr ''id'', PStr ''email'', PStr ''org_id'']"
proof -
  define svc where "svc = \<lparr> conn = demo_db, dbname = ''Shop'' \<rparr>"
  obtain ch h1 where b: "bootstrap demo_world svc host0 = (Inr ch, h1)"
    using bootstrap_total [of demo_world svc host0] by (auto simp: demo_world_def)
  define sp where "sp = DDSpider_init \<lparr> conn = demo_db, dbname = ''Shop'' \<rparr> ch
          \<lparr> fullpath = ''C:'' @ [CHR 0x5C] @ ''Shop_DataDictionary.xlsx'', wkbk = [] \<rparr>"
  have c: "cache sp = ch" and x: "wkbk (xlservice sp) = []"
    by (simp_all add: sp_def DDSpider_init_def)
  have cn: "conn svc = demo_db" by (simp add: svc_def)
  have t: "tables ch = [''Users'', ''Orgs'', ''Empty'']"
    using bootstrap_tables [OF b] by (simp add: select_tables_demo cn)
  have a: "accepts demo_world (tables (cache sp))" unfolding c t by (rule accepts_demo)
  have ne: "tables (cache sp) \<noteq> []" unfolding c t by simp
  obtain self' host' where r: "run demo_world sp h1 = (Inr self', host')"
    using run_total [OF a ne] by blast
  have u: "''Users'' \<in> set (tables (cache sp))" unfolding c t by simp
  have b': "bootstrap demo_world svc host0 = (Inr (cache sp), h1)" unfolding c by (rule b)
  have rows: "map (\<lambda>r. C_COLUMN_NAME (fst r)) (sort_key ordinal (catalog_columns demo_db ''Users'')) =
                [''id'', ''email'', ''org_id'']"
    by (simp add: catalog_columns_def demo_db_def ordinal_def)
  from run_writes_every_table [OF x r u] obtain i where
    g: "get_sheet_by_name (wkbk (xlservice self')) ''Users'' = Inr i" and
    m: "max_row (wkbk (xlservice self') ! i) = length (get_columns_for_table ch ''Users'') + 1" and
    v: "ws_values (wkbk (xlservice self') ! i) =
          map PStr (headers (TableDescription_init ''Users'')) #
          map (\<lambda>col. to_row (make_field ch ''Users'' col)) (get_columns_for_table ch ''Users'')" and
    k: "\<forall>svc h0 h1. bootstrap demo_world svc h0 = (Inr ch, h1) \<longrightarrow>
          get_columns_for_table ch ''Users'' =
          map (column_of (conn svc)) (sort_key ordinal (catalog_columns (conn svc) ''Users''))"
    unfolding Let_def c by blast
  have k': "get_columns_for_table ch ''Users'' =
          map (column_of demo_db) (sort_key ordinal (catalog_columns demo_db ''Users''))"
    using k b cn by metis
  have n: "map COLUMN_NAME (get_columns_for_table ch ''Users'') = [''id'', ''email'', ''org_id'']"
    unfolding k' using rows by (simp add: o_def column_of_def [abs_def])
  have "map (\<lambda>row. row ! 1) (ws_values (wkbk (xlservice self') ! i)) =
          PStr ''Field Name'' # map PStr (map COLUMN_NAME (get_columns_for_table ch ''Users''))"
    unfolding v by (simp add: o_def to_row_def make_field_eq TableDescription_init_def)
  then have f: "map (\<lambda>row. row ! 1) (ws_values (wkbk (xlservice self') ! i)) =
       [PStr ''Field Name'', PStr ''id'', PStr ''email'', PStr ''org_id'']"
    by (simp only: n) simp
  have "length (get_columns_for_table ch ''Users'') = 3"
    using arg_cong [OF n, of length] by simp
  then have m': "max_row (wkbk (xlservice self') ! i) = 4"
    using m by simp
  from b r g catalog_columns_Users n m' f show ?thesis
    unfolding svc_def sp_def by (intro exI conjI)
qed

subsection \<open>The outcomes of bootstrap and of discoverdb\<close>

lemma bootstrap_fails_tables:
  "execute_fails w (calls h) SELECT_TABLES = Some e \<Longrightarrow>
   bootstrap w svc h = (Inl e, logged (Execute SELECT_TABLES) h)"
  by (simp add: bootstrap_def get_tables_def Let_def)

lemma bootstrap_fails_columns:
  "execute_fails w (calls h) SELECT_TABLES = None \<Longrightarrow>
   execute_fails w (calls h @ [Execute SELECT_TABLES]) SELECT_COLUMNS = Some e \<Longrightarrow>
   bootstrap w svc h =
     (Inl e, logged (Execute SELECT_COLUMNS) (logged (Execute SELECT_TABLES) h))"
  by (simp add: bootstrap_def get_tables_def get_columns_def Let_def)

lemma bootstrap_fails_constraints:
  "execute_fails w (calls h) SELECT_TABLES = None \<Longrightarrow>
   execute_fails w (calls h @ [Execute SELECT_TABLES]) SELECT_COLUMNS = None \<Longrightarrow>
   execute_fails w (calls h @ [Execute SELECT_TABLES, Execute SELECT_COLUMNS])
     SELECT_CONSTRAINTS = Some e \<Longrightarrow>
   bootstrap w svc h =
     (Inl e, logged (Execute SELECT_CONSTRAINTS)
        (logged (Execute SELECT_COLUMNS) (logged (Execute SELECT_TABLES) h)))"
  by (simp add: bootstrap_def get_tables_def get_columns_def get_constraints_def Let_def)

lemma bootstrap_fails_close:
  "execute_fails w (calls h) SELECT_TABLES = None \<Longrightarrow>
   execute_fails w (calls h @ [Execute SELECT_TABLES]) SELECT_COLUMNS = None \<Longrightarrow>
   execute_fails w (calls h @ [Execute SELECT_TABLES, Execute SELECT_COLUMNS])
     SELECT_CONSTRAINTS = None \<Longrightarrow>
   close_fails w (calls h @ [Execute SELECT_TABLES, Execute SELECT_COLUMNS,
     Execute SELECT_CONSTRAINTS]) = Some e \<Longrightarrow>
   bootstrap w svc h =
     (Inl e, logged Close (logged (Execute SELECT_CONSTRAINTS)
        (logged (Execute SELECT_COLUMNS) (logged (Execute SELECT_TABLES) h))))"
  by (simp add: bootstrap_def get_tables_def get_columns_def get_constraints_def close_def Let_def)

lemma bootstrap_calls:
  assumes "bootstrap w svc h = (r, h')"
  shows "\<exists>n. 1 \<le> n \<and> n \<le> 4 \<and>
           calls h' = calls h @ take n [Execute SELECT_TABLES, Execute SELECT_COLUMNS,
                                        Execute SELECT_CONSTRAINTS, Close] \<and>
           files h' = files h \<and> stdout h' = stdout h"
proof (cases "execute_fails w (calls h) SELECT_TABLES")
  case (Some e)
  from bootstrap_fails_tables [OF this] assms show ?thesis
    by (intro exI [of _ 1]) auto
next
  case t: None
  show ?thesis
  proof (cases "execute_fails w (calls h @ [Execute SELECT_TABLES]) SELECT_COLUMNS")
    case (Some e)
    from bootstrap_fails_columns [OF t this] assms show ?thesis
      by (intro exI [of _ 2]) auto
  next
    case c: None
    show ?thesis
    proof (cases "execute_fails w (calls h @ [Execute SELECT_TABLES, Execute SELECT_COLUMNS])
                    SELECT_CONSTRAINTS")
      case (Some e)
      from bootstrap_fails_constraints [OF t c this] assms show ?thesis
        by (intro exI [of _ 3]) auto
    next
      case k: None
      have "calls h' = calls h @ [Execute SELECT_TABLES, Execute SELECT_COLUMNS,
                                   Execute SELECT_CONSTRAINTS, Close] \<and>
            files h' = files h \<and> stdout h' = stdout h"
        using assms t c k
        by (auto simp: bootstrap_def get_tables_def get_columns_def get_constraints_def
              close_def Let_def split: option.splits)
      then show ?thesis by (intro exI [of _ 4]) auto
    qed
  qed
qed

lemma discoverdb_cases:
  assumes "discoverdb w server catalog directory host = (r, host')"
  obtains
    (connect) e where
      "connect w (calls host) (connection_string server catalog) = Inl e"
      "r = Inl e" "host' = logged (Connect (connection_string server catalog)) host"
  | (bootstrap) db e where
      "connect w (calls host) (connection_string server catalog) = Inr db"
      "bootstrap w \<lparr> conn = db, dbname = DATABASE_NAME db \<rparr>
         (logged (Connect (connection_string server catalog)) host) = (Inl e, host')"
      "r = Inl e"
  | (sheets) db ch e where
      "connect w (calls host) (connection_string server catalog) = Inr db"
      "bootstrap w \<lparr> conn = db, dbname = DATABASE_NAME db \<rparr>
         (logged (Connect (connection_string server catalog)) host) = (Inr ch, host')"
      "run_tables w ch (tables ch)
         \<lparr> fullpath = output_path directory (DATABASE_NAME db), wkbk = [] \<rparr> = Inl e"
      "r = Inl e"
  | (save) db ch xl e h where
      "connect w (calls host) (connection_string server catalog) = Inr db"
      "bootstrap w \<lparr> conn = db, dbname = DATABASE_NAME db \<rparr>
         (logged (Connect (connection_string server catalog)) host) = (Inr ch, h)"
      "run_tables w ch (tables ch)
         \<lparr> fullpath = output_path directory (DATABASE_NAME db), wkbk = [] \<rparr> = Inr xl"
      "save_fails w (calls h) (fullpath xl) (wkbk xl) = Some e"
      "r = Inl e"
      "calls host' = calls h @ [Save (fullpath xl) (wkbk xl)]"
      "stdout host' = stdout h"
      "files host' = files h @
         (if save_leaves_file w (calls h) (fullpath xl) (wkbk xl)
          then [(fullpath xl, Broken)] else [])"
  | (saved) db ch xl h where
      "connect w (calls host) (connection_string server catalog) = Inr db"
      "bootstrap w \<lparr> conn = db, dbname = DATABASE_NAME db \<rparr>
         (logged (Connect (connection_string server catalog)) host) = (Inr ch, h)"
      "run_tables w ch (tables ch)
         \<lparr> fullpath = output_path directory (DATABASE_NAME db), wkbk = [] \<rparr> = Inr xl"
      "save_fails w (calls h) (fullpath xl) (wkbk xl) = None"
      "r = Inr ()"
      "calls host' = calls h @ [Save (fullpath xl) (wkbk xl)]"
      "stdout host' = stdout h @ [''Data Dictionary Created: '' @ fullpath xl]"
      "files host' = files h @ [(fullpath xl, Saved (wkbk xl))]"
proof (cases "connect w (calls host) (connection_string server catalog)")
  case (Inl e)
  then show ?thesis using assms connect
    by (simp add: discoverdb_def DBService_init_def Let_def)
next
  case db: (Inr db)
  obtain rb h where b: "bootstrap w \<lparr> conn = db, dbname = DATABASE_NAME db \<rparr>
         (logged (Connect (connection_string server catalog)) host) = (rb, h)"
    by (cases "bootstrap w \<lparr> conn = db, dbname = DATABASE_NAME db \<rparr>
         (logged (Connect (connection_string server catalog)) host)") auto
  show ?thesis
  proof (cases rb)
    case (Inl e)
    then show ?thesis using assms db b bootstrap [of db e]
      by (simp add: discoverdb_def DBService_init_def Let_def)
  next
    case ch: (Inr ch)
    show ?thesis
    proof (cases "run_tables w ch (tables ch)
         \<lparr> fullpath = output_path directory (DATABASE_NAME db), wkbk = [] \<rparr>")
      case (Inl e)
      then show ?thesis using assms db b ch sheets [of db ch e]
        by (simp add: discoverdb_def DBService_init_def XLService_init_eq DDSpider_init_def
              run_def output_path_def Let_def)
    next
      case xl: (Inr xl)
      show ?thesis
      proof (cases "save_fails w (calls h) (fullpath xl) (wkbk xl)")
        case None
        then show ?thesis using assms db b ch xl saved [of db ch h xl]
          by (auto simp: discoverdb_def DBService_init_def XLService_init_eq DDSpider_init_def
                run_def save_def output_path_def Let_def)
      next
        case (Some e)
        then show ?thesis using assms db b ch xl save [of db ch h xl e]
          by (auto simp: discoverdb_def DBService_init_def XLService_init_eq DDSpider_init_def
                run_def save_def output_path_def Let_def split: if_splits)
      qed
    qed
  qed
qed

lemma connect_demo:
  "connect demo_world h (connection_string ''srv'' ''Shop'') = Inr demo_db"
  by (simp add: demo_world_def connection_string_def)

lemma discoverdb_demo:
  "\<exists>host'. discoverdb demo_world ''srv'' ''Shop'' ''C:'' host0 = (Inr (), host')"
proof (rule discoverdb_total [OF connect_demo])
  show "\<forall>h q. execute_fails demo_world h q = None" by (simp add: demo_world_def)
  show "\<forall>h. close_fails demo_world h = None" by (simp add: demo_world_def)
  show "accepts demo_world (map T_TABLE_NAME (select_tables demo_db))"
    unfolding select_tables_demo by (rule accepts_demo)
  show "select_tables demo_db \<noteq> []" using select_tables_demo by auto
qed

lemma is_save_simps [simp]:
  "is_save (Save p wb)" "\<not> is_save (Connect s)" "\<not> is_save (Execute q)" "\<not> is_save Close"
  by (simp_all add: is_save_def)

lemma no_save_in_db_calls: "Save p wb \<notin> set (take n (db_calls cstr))"
  by (auto simp: db_calls_def dest!: in_set_takeD)

lemma filter_save_db_calls: "filter is_save (take n (db_calls cstr)) = []"
  by (auto simp: db_calls_def filter_empty_conv dest!: in_set_takeD)

lemma run_tables_sheets:
  assumes "run_tables w ch (tables ch) \<lparr> fullpath = p, wkbk = [] \<rparr> = Inr xl"
  shows "fullpath xl = p" and "length (wkbk xl) = length (tables ch)"
    and "\<forall>T \<in> set (tables ch).
           \<exists>i. get_sheet_by_name (wkbk xl) T = Inr i \<and> ws_values (wkbk xl ! i) = table_rows ch T"
proof -
  show "fullpath xl = p" using run_tables_fullpath [OF assms] by simp
  show "length (wkbk xl) = length (tables ch)" using run_tables_length [OF assms] by simp
  have "\<forall>T \<in> set (tables ch). described ch (wkbk xl) T"
    using run_tables_post [OF assms] by simp
  then show "\<forall>T \<in> set (tables ch).
           \<exists>i. get_sheet_by_name (wkbk xl) T = Inr i \<and> ws_values (wkbk xl ! i) = table_rows ch T"
    using described_values by blast
qed

lemma discoverdb_log:
  assumes "discoverdb w server catalog directory host = (r, host')"
  shows "(\<exists>n e. r = Inl e \<and> 1 \<le> n \<and> n \<le> 5 \<and>
            calls host' = calls host @ take n (db_calls (connection_string server catalog)) \<and>
            files host' = files host \<and> stdout host' = stdout host) \<or>
         (\<exists>db ch h xl.
            connect w (calls host) (connection_string server catalog) = Inr db \<and>
            bootstrap w \<lparr> conn = db, dbname = DATABASE_NAME db \<rparr>
              (logged (Connect (connection_string server catalog)) host) = (Inr ch, h) \<and>
            run_tables w ch (tables ch)
              \<lparr> fullpath = output_path directory (DATABASE_NAME db), wkbk = [] \<rparr> = Inr xl \<and>
            calls host' = calls host @
              io_calls (connection_string server catalog) (fullpath xl) (wkbk xl) \<and>
            (case save_fails w (calls h) (fullpath xl) (wkbk xl) of
               Some e \<Rightarrow> r = Inl e \<and> stdout host' = stdout host \<and>
                 files host' = files host @
                   (if save_leaves_file w (calls h) (fullpath xl) (wkbk xl)
                    then [(fullpath xl, Broken)] else [])
             | None \<Rightarrow> r = Inr () \<and>
                 stdout host' = stdout host @ [''Data Dictionary Created: '' @ fullpath xl] \<and>
                 files host' = files host @ [(fullpath xl, Saved (wkbk xl))]))"
  using assms
proof (cases rule: discoverdb_cases)
  case (connect e)
  then have "r = Inl e \<and> 1 \<le> (1::nat) \<and> (1::nat) \<le> 5 \<and>
            calls host' = calls host @ take 1 (db_calls (connection_string server catalog)) \<and>
            files host' = files host \<and> stdout host' = stdout host"
    by (simp add: db_calls_def)
  then show ?thesis by blast
next
  case (bootstrap db e)
  from bootstrap_calls [OF bootstrap(2)] obtain n where
    n: "1 \<le> n" "n \<le> 4"
       "calls host' = calls (logged (Connect (connection_string server catalog)) host) @
          take n [Execute SELECT_TABLES, Execute SELECT_COLUMNS, Execute SELECT_CONSTRAINTS, Close]"
       "files host' = files host" "stdout host' = stdout host"
    by auto
  have "r = Inl e \<and> 1 \<le> Suc n \<and> Suc n \<le> 5 \<and>
            calls host' = calls host @ take (Suc n) (db_calls (connection_string server catalog)) \<and>
            files host' = files host \<and> stdout host' = stdout host"
    using n bootstrap(3) by (simp add: db_calls_def)
  then show ?thesis by blast
next
  case (sheets db ch e)
  note h = bootstrap_host [OF sheets(2)]
  have "r = Inl e \<and> 1 \<le> (5::nat) \<and> (5::nat) \<le> 5 \<and>
            calls host' = calls host @ take 5 (db_calls (connection_string server catalog)) \<and>
            files host' = files host \<and> stdout host' = stdout host"
    using h sheets(4) by (simp add: db_calls_def)
  then show ?thesis by blast
next
  case (save db ch xl e h)
  note bh = bootstrap_host [OF save(2)]
  show ?thesis
    apply (rule disjI2)
    apply (rule exI [of _ db], rule exI [of _ ch], rule exI [of _ h], rule exI [of _ xl])
    using save bh by (simp add: io_calls_def db_calls_def)
next
  case (saved db ch xl h)
  note bh = bootstrap_host [OF saved(2)]
  show ?thesis
    apply (rule disjI2)
    apply (rule exI [of _ db], rule exI [of _ ch], rule exI [of _ h], rule exI [of _ xl])
    using saved bh by (simp add: io_calls_def db_calls_def)
qed

text \<open>
  C6. The workbook is persisted exactly once, after every table's worksheet has been
  written, to the path formed from the output directory and the database's own name;
  save is the single terminal operation. In the log of the calls a run makes, at most
  one is a save; a run that completes makes exactly one. Where there is a save, it is
  the last call of the run, it comes after the connection, the three queries and the
  close, its path is directory + separator + database name + \<open>_DataDictionary.xlsx\<close>,
  the separator being the backslash the script writes in its format string
  \<open>"{0}\\{1}_DataDictionary.xlsx"\<close>, and the workbook it is given has one worksheet per
  table of the table list, each with all the rows of its table. The file of a run that
  completes is the workbook of that one call.
\<close>

theorem workbook_saved_once:
  assumes "discoverdb w server catalog directory host = (r, host')"
  shows "\<exists>cs. calls host' = calls host @ cs \<and>
           length (filter is_save cs) \<le> 1 \<and>
           (r = Inr () \<longrightarrow> length (filter is_save cs) = 1) \<and>
           (\<forall>p wb. Save p wb \<in> set cs \<longrightarrow>
              cs = io_calls (connection_string server catalog) p wb \<and> last cs = Save p wb \<and>
              (\<exists>db ch h.
                 connect w (calls host) (connection_string server catalog) = Inr db \<and>
                 bootstrap w \<lparr> conn = db, dbname = DATABASE_NAME db \<rparr>
                   (logged (Connect (connection_string server catalog)) host) = (Inr ch, h) \<and>
                 p = directory @ [CHR 0x5C] @ DATABASE_NAME db @ ''_DataDictionary.xlsx'' \<and>
                 length wb = length (tables ch) \<and>
                 (\<forall>T \<in> set (tables ch).
                    \<exists>i. get_sheet_by_name wb T = Inr i \<and>
                        ws_values (wb ! i) =
                          map PStr (headers (TableDescription_init T)) #
                          map (\<lambda>col. to_row (make_field ch T col)) (get_columns_for_table ch T)))) \<and>
           (r = Inr () \<longrightarrow>
              (\<exists>p wb. cs = io_calls (connection_string server catalog) p wb \<and>
                 files host' = files host @ [(p, Saved wb)]))"
  using discoverdb_log [OF assms]
proof (elim disjE exE conjE)
  fix n e
  assume a: "r = Inl e"
    "calls host' = calls host @ take n (db_calls (connection_string server catalog))"
  show ?thesis
    apply (rule exI [of _ "take n (db_calls (connection_string server catalog))"])
    using a by (simp add: filter_save_db_calls no_save_in_db_calls)
next
  fix db ch h xl
  assume c: "connect w (calls host) (connection_string server catalog) = Inr db"
    and b: "bootstrap w \<lparr> conn = db, dbname = DATABASE_NAME db \<rparr>
              (logged (Connect (connection_string server catalog)) host) = (Inr ch, h)"
    and rt: "run_tables w ch (tables ch)
              \<lparr> fullpath = output_path directory (DATABASE_NAME db), wkbk = [] \<rparr> = Inr xl"
    and cl: "calls host' = calls host @
              io_calls (connection_string server catalog) (fullpath xl) (wkbk xl)"
    and s: "case save_fails w (calls h) (fullpath xl) (wkbk xl) of
               Some e \<Rightarrow> r = Inl e \<and> stdout host' = stdout host \<and>
                 files host' = files host @
                   (if save_leaves_file w (calls h) (fullpath xl) (wkbk xl)
                    then [(fullpath xl, Broken)] else [])
             | None \<Rightarrow> r = Inr () \<and>
                 stdout host' = stdout host @ [''Data Dictionary Created: '' @ fullpath xl] \<and>
                 files host' = files host @ [(fullpath xl, Saved (wkbk xl))]"
  note sh = run_tables_sheets [OF rt]
  have f: "filter is_save (io_calls (connection_string server catalog) (fullpath xl) (wkbk xl)) =
             [Save (fullpath xl) (wkbk xl)]"
    by (simp add: io_calls_def db_calls_def)
  have m: "\<And>p wb. Save p wb \<in> set (io_calls (connection_string server catalog) (fullpath xl) (wkbk xl))
             \<Longrightarrow> p = fullpath xl \<and> wb = wkbk xl"
    by (auto simp: io_calls_def db_calls_def)
  have l: "last (io_calls (connection_string server catalog) (fullpath xl) (wkbk xl)) =
             Save (fullpath xl) (wkbk xl)"
    by (simp add: io_calls_def)
  have tr: "\<forall>T \<in> set (tables ch).
                    \<exists>i. get_sheet_by_name (wkbk xl) T = Inr i \<and>
                        ws_values (wkbk xl ! i) =
                          map PStr (headers (TableDescription_init T)) #
                          map (\<lambda>col. to_row (make_field ch T col)) (get_columns_for_table ch T)"
    using sh(3) by (simp add: table_rows_def)
  have ex: "\<exists>db ch h.
                 connect w (calls host) (connection_string server catalog) = Inr db \<and>
                 bootstrap w \<lparr> conn = db, dbname = DATABASE_NAME db \<rparr>
                   (logged (Connect (connection_string server catalog)) host) = (Inr ch, h) \<and>
                 fullpath xl = directory @ [CHR 0x5C] @ DATABASE_NAME db @ ''_DataDictionary.xlsx'' \<and>
                 length (wkbk xl) = length (tables ch) \<and>
                 (\<forall>T \<in> set (tables ch).
                    \<exists>i. get_sheet_by_name (wkbk xl) T = Inr i \<and>
                        ws_values (wkbk xl ! i) =
                          map PStr (headers (TableDescription_init T)) #
                          map (\<lambda>col. to_row (make_field ch T col)) (get_columns_for_table ch T))"
    using c b sh(1,2) tr unfolding output_path_def by blast
  have fin: "r = Inr () \<longrightarrow> files host' = files host @ [(fullpath xl, Saved (wkbk xl))]"
    using s by (auto split: option.splits)
  show ?thesis
  proof (rule exI [of _ "io_calls (connection_string server catalog) (fullpath xl) (wkbk xl)"],
         intro conjI allI impI)
    show "calls host' = calls host @
            io_calls (connection_string server catalog) (fullpath xl) (wkbk xl)" by (rule cl)
    show "length (filter is_save
            (io_calls (connection_string server catalog) (fullpath xl) (wkbk xl))) \<le> 1"
      unfolding f by simp
    show "length (filter is_save
            (io_calls (connection_string server catalog) (fullpath xl) (wkbk xl))) = 1"
      unfolding f by simp
  next
    fix p wb
    assume "Save p wb \<in> set (io_calls (connection_string server catalog) (fullpath xl) (wkbk xl))"
    from m [OF this] have e: "p = fullpath xl" "wb = wkbk xl" by simp_all
    show "io_calls (connection_string server catalog) (fullpath xl) (wkbk xl) =
            io_calls (connection_string server catalog) p wb" unfolding e ..
    show "last (io_calls (connection_string server catalog) (fullpath xl) (wkbk xl)) = Save p wb"
      unfolding e by (rule l)
    show "\<exists>db ch h.
                 connect w (calls host) (connection_string server catalog) = Inr db \<and>
                 bootstrap w \<lparr> conn = db, dbname = DATABASE_NAME db \<rparr>
                   (logged (Connect (connection_string server catalog)) host) = (Inr ch, h) \<and>
                 p = directory @ [CHR 0x5C] @ DATABASE_NAME db @ ''_DataDictionary.xlsx'' \<and>
                 length wb = length (tables ch) \<and>
                 (\<forall>T \<in> set (tables ch).
                    \<exists>i. get_sheet_by_name wb T = Inr i \<and>
                        ws_values (wb ! i) =
                          map PStr (headers (TableDescription_init T)) #
                          map (\<lambda>col. to_row (make_field ch T col)) (get_columns_for_table ch T))"
      unfolding e by (rule ex)
  next
    assume "r = Inr ()"
    with fin show "\<exists>p wb. io_calls (connection_string server catalog) (fullpath xl) (wkbk xl) =
              io_calls (connection_string server catalog) p wb \<and>
              files host' = files host @ [(p, Saved wb)]" by blast
  qed
qed

theorem workbook_saved_once_witness:
  "\<exists>host' wb. discoverdb demo_world ''srv'' ''Shop'' ''C:'' host0 = (Inr (), host') \<and>
     calls host' = [Connect (connection_string ''srv'' ''Shop''), Execute SELECT_TABLES,
                    Execute SELECT_COLUMNS, Execute SELECT_CONSTRAINTS, Close,
                    Save (''C:'' @ [CHR 0x5C] @ ''Shop_DataDictionary.xlsx'') wb] \<and>
     files host' = [(''C:'' @ [CHR 0x5C] @ ''Shop_DataDictionary.xlsx'', Saved wb)] \<and>
     length wb = 3"
proof -
  obtain host' where d: "discoverdb demo_world ''srv'' ''Shop'' ''C:'' host0 = (Inr (), host')"
    using discoverdb_demo by blast
  from workbook_saved_once [OF d] obtain cs where
    cs: "calls host' = calls host0 @ cs"
    and sv: "\<forall>p wb. Save p wb \<in> set cs \<longrightarrow>
              cs = io_calls (connection_string ''srv'' ''Shop'') p wb \<and> last cs = Save p wb \<and>
              (\<exists>db ch h.
                 connect demo_world (calls host0) (connection_string ''srv'' ''Shop'') = Inr db \<and>
                 bootstrap demo_world \<lparr> conn = db, dbname = DATABASE_NAME db \<rparr>
                   (logged (Connect (connection_string ''srv'' ''Shop'')) host0) = (Inr ch, h) \<and>
                 p = ''C:'' @ [CHR 0x5C] @ DATABASE_NAME db @ ''_DataDictionary.xlsx'' \<and>
                 length wb = length (tables ch) \<and>
                 (\<forall>T \<in> set (tables ch).
                    \<exists>i. get_sheet_by_name wb T = Inr i \<and>
                        ws_values (wb ! i) =
                          map PStr (headers (TableDescription_init T)) #
                          map (\<lambda>col. to_row (make_field ch T col)) (get_columns_for_table ch T)))"
    and fl: "\<exists>p wb. cs = io_calls (connection_string ''srv'' ''Shop'') p wb \<and>
                 files host' = files host0 @ [(p, Saved wb)]"
    by blast
  from fl obtain p wb where
    pw: "cs = io_calls (connection_string ''srv'' ''Shop'') p wb"
        "files host' = files host0 @ [(p, Saved wb)]" by blast
  have "Save p wb \<in> set cs" unfolding pw by (simp add: io_calls_def)
  with sv obtain db ch h where
    x: "connect demo_world (calls host0) (connection_string ''srv'' ''Shop'') = Inr db"
       "bootstrap demo_world \<lparr> conn = db, dbname = DATABASE_NAME db \<rparr>
          (logged (Connect (connection_string ''srv'' ''Shop'')) host0) = (Inr ch, h)"
       "p = ''C:'' @ [CHR 0x5C] @ DATABASE_NAME db @ ''_DataDictionary.xlsx''"
       "length wb = length (tables ch)"
    by blast
  have db: "db = demo_db" using x(1) by (simp add: connect_demo)
  have t: "length (tables ch) = 3"
    using bootstrap_tables [OF x(2)] select_tables_demo by (simp add: db)
  have p: "p = ''C:'' @ [CHR 0x5C] @ ''Shop_DataDictionary.xlsx''"
    using x(3) by (simp add: db demo_db_def)
  have c: "calls host' = [Connect (connection_string ''srv'' ''Shop''), Execute SELECT_TABLES,
                    Execute SELECT_COLUMNS, Execute SELECT_CONSTRAINTS, Close, Save p wb]"
    using cs pw(1) by (simp add: host0_def io_calls_def db_calls_def)
  have f: "files host' = [(p, Saved wb)]" using pw(2) by (simp add: host0_def)
  have l: "length wb = 3" using x(4) t by simp
  show ?thesis
    apply (rule exI [of _ host'], rule exI [of _ wb])
    using d c f l unfolding p by (intro conjI)
qed

lemma connect_blank:
  "connect demo_world h (connection_string ''srv'' ''Blank'') = Inr blank_db"
  by (simp add: demo_world_def connection_string_def)

lemma select_tables_blank: "select_tables blank_db = []"
  by (simp add: select_tables_def blank_db_def)

lemma demo_world_queries:
  "\<forall>h q. execute_fails demo_world h q = None" "\<forall>h. close_fails demo_world h = None"
  by (simp_all add: demo_world_def)

text \<open>
  C7, as the claim states it, fails where it says that no output file is produced when
  a step fails before \<open>save()\<close> completes. A catalog whose only base table is
  \<open>sysdiagrams\<close> gives an empty table list, so the workbook, whose default sheet
  \<open>XLService.__init__\<close> removed, has no sheet when \<open>run\<close> calls \<open>save\<close>; openpyxl
  raises for such a workbook after it has opened the target, and the run ends in that
  error with an incomplete file at the output path.
\<close>

theorem failed_save_leaves_file:
  "\<exists>host'. discoverdb demo_world ''srv'' ''Blank'' ''C:'' host0 = (Inl IndexError, host') \<and>
     files host0 = [] \<and>
     files host' = [(''C:'' @ [CHR 0x5C] @ ''Blank_DataDictionary.xlsx'', Broken)] \<and>
     calls host' = [Connect (connection_string ''srv'' ''Blank''), Execute SELECT_TABLES,
                    Execute SELECT_COLUMNS, Execute SELECT_CONSTRAINTS, Close,
                    Save (''C:'' @ [CHR 0x5C] @ ''Blank_DataDictionary.xlsx'') []]"
proof -
  obtain ch h where b: "bootstrap demo_world \<lparr> conn = blank_db, dbname = DATABASE_NAME blank_db \<rparr>
       (logged (Connect (connection_string ''srv'' ''Blank'')) host0) = (Inr ch, h)"
    using bootstrap_total [OF demo_world_queries] by blast
  have t: "tables ch = []" using bootstrap_tables [OF b] by (simp add: select_tables_blank)
  note bh = bootstrap_host [OF b]
  have s: "\<And>h p. save_fails demo_world h p [] = Some IndexError"
          "\<And>h p wb. save_leaves_file demo_world h p wb"
    by (simp_all add: demo_world_def)
  have c: "connect demo_world (calls host0) (connection_string ''srv'' ''Blank'') = Inr blank_db"
    by (rule connect_blank)
  have d: "discoverdb demo_world ''srv'' ''Blank'' ''C:'' host0 =
      (Inl IndexError,
       (logged (Save (output_path ''C:'' (DATABASE_NAME blank_db)) []) h)
         \<lparr>files := files h @ [(output_path ''C:'' (DATABASE_NAME blank_db), Broken)]\<rparr>)"
    using c b t s
    by (simp add: discoverdb_def DBService_init_def XLService_init_eq DDSpider_init_def
          run_def save_def Let_def output_path_def)
  show ?thesis
    unfolding d using bh
    by (simp add: host0_def output_path_def blank_db_def)
qed

text \<open>
  C7, amended. No error raised anywhere in the pipeline (connection, catalog query,
  closing the connection, creating or finding a worksheet, saving) is caught or
  retried: the error of the first call that fails is the result of every function above
  it, up to \<open>discoverdb\<close>; the log of a run that fails holds each call once, ends with
  the call that failed or, for a worksheet, with the last call made before it, and
  nothing is printed. A run that fails before it calls \<open>save()\<close> writes no file; a run
  whose \<open>save()\<close> raises writes no complete file, but the file \<open>save()\<close> had opened may
  be left, incomplete, at the output path. A run that completes adds one file and one
  line. The witness runs the example against a server that refuses the first connection
  and would accept a second one, and against a disk on which the save raises.
\<close>

theorem no_error_is_caught:
  "(\<forall>e. connect w (calls host) (connection_string server catalog) = Inl e \<longrightarrow>
      discoverdb w server catalog directory host = (Inl e, logged (Connect (connection_string server catalog)) host)) \<and>
   (\<forall>db e h. connect w (calls host) (connection_string server catalog) = Inr db \<and>
      bootstrap w \<lparr> conn = db, dbname = DATABASE_NAME db \<rparr> (logged (Connect (connection_string server catalog)) host) =
        (Inl e, h) \<longrightarrow>
      discoverdb w server catalog directory host = (Inl e, h)) \<and>
   (\<forall>db ch e h. connect w (calls host) (connection_string server catalog) = Inr db \<and>
      bootstrap w \<lparr> conn = db, dbname = DATABASE_NAME db \<rparr> (logged (Connect (connection_string server catalog)) host) =
        (Inr ch, h) \<and>
      run_tables w ch (tables ch)
        \<lparr> fullpath = directory @ [CHR 0x5C] @ DATABASE_NAME db @ ''_DataDictionary.xlsx'',
          wkbk = [] \<rparr> = Inl e \<longrightarrow>
      discoverdb w server catalog directory host = (Inl e, h)) \<and>
   (\<forall>db ch xl e h. connect w (calls host) (connection_string server catalog) = Inr db \<and>
      bootstrap w \<lparr> conn = db, dbname = DATABASE_NAME db \<rparr> (logged (Connect (connection_string server catalog)) host) =
        (Inr ch, h) \<and>
      run_tables w ch (tables ch)
        \<lparr> fullpath = directory @ [CHR 0x5C] @ DATABASE_NAME db @ ''_DataDictionary.xlsx'',
          wkbk = [] \<rparr> = Inr xl \<and>
      save_fails w (calls h) (fullpath xl) (wkbk xl) = Some e \<longrightarrow>
      (\<exists>host'. discoverdb w server catalog directory host = (Inl e, host') \<and>
         calls host' = calls h @ [Save (fullpath xl) (wkbk xl)] \<and>
         stdout host' = stdout h \<and>
         files host' = files h @
           (if save_leaves_file w (calls h) (fullpath xl) (wkbk xl)
            then [(fullpath xl, Broken)] else []))) \<and>
   (\<forall>svc h e. execute_fails w (calls h) SELECT_TABLES = Some e \<longrightarrow>
      bootstrap w svc h = (Inl e, logged (Execute SELECT_TABLES) h)) \<and>
   (\<forall>svc h e. execute_fails w (calls h) SELECT_TABLES = None \<and>
      execute_fails w (calls h @ [Execute SELECT_TABLES]) SELECT_COLUMNS = Some e \<longrightarrow>
      bootstrap w svc h =
        (Inl e, logged (Execute SELECT_COLUMNS) (logged (Execute SELECT_TABLES) h))) \<and>
   (\<forall>svc h e. execute_fails w (calls h) SELECT_TABLES = None \<and>
      execute_fails w (calls h @ [Execute SELECT_TABLES]) SELECT_COLUMNS = None \<and>
      execute_fails w (calls h @ [Execute SELECT_TABLES, Execute SELECT_COLUMNS])
        SELECT_CONSTRAINTS = Some e \<longrightarrow>
      bootstrap w svc h =
        (Inl e, logged (Execute SELECT_CONSTRAINTS)
           (logged (Execute SELECT_COLUMNS) (logged (Execute SELECT_TABLES) h)))) \<and>
   (\<forall>svc h e. execute_fails w (calls h) SELECT_TABLES = None \<and>
      execute_fails w (calls h @ [Execute SELECT_TABLES]) SELECT_COLUMNS = None \<and>
      execute_fails w (calls h @ [Execute SELECT_TABLES, Execute SELECT_COLUMNS])
        SELECT_CONSTRAINTS = None \<and>
      close_fails w (calls h @ [Execute SELECT_TABLES, Execute SELECT_COLUMNS,
        Execute SELECT_CONSTRAINTS]) = Some e \<longrightarrow>
      bootstrap w svc h =
        (Inl e, logged Close (logged (Execute SELECT_CONSTRAINTS)
           (logged (Execute SELECT_COLUMNS) (logged (Execute SELECT_TABLES) h))))) \<and>
   (\<forall>ch T rest xl e. describe_table w xl (build_desc ch T) = Inl e \<longrightarrow>
      run_tables w ch (T # rest) xl = Inl e) \<and>
   (\<forall>ch T rest xl xl1 e. describe_table w xl (build_desc ch T) = Inr xl1 \<and>
      run_tables w ch rest xl1 = Inl e \<longrightarrow> run_tables w ch (T # rest) xl = Inl e) \<and>
   (\<forall>xl d e. sheet_title w (map title (wkbk xl)) (table_name d) = Inl e \<longrightarrow>
      describe_table w xl d = Inl e) \<and>
   (\<forall>xl d t'. sheet_title w (map title (wkbk xl)) (table_name d) = Inr t' \<and>
      table_name d \<notin> set (map title (wkbk xl) @ [t']) \<longrightarrow>
      describe_table w xl d = Inl KeyError) \<and>
   (\<forall>e host'. discoverdb w server catalog directory host = (Inl e, host') \<longrightarrow>
      stdout host' = stdout host \<and>
      ((\<exists>n. 1 \<le> n \<and> n \<le> 5 \<and> calls host' = calls host @ take n (db_calls (connection_string server catalog)) \<and>
            files host' = files host) \<or>
       (\<exists>p wb. calls host' = calls host @ io_calls (connection_string server catalog) p wb \<and>
            (files host' = files host \<or> files host' = files host @ [(p, Broken)])))) \<and>
   (\<forall>u host'. discoverdb w server catalog directory host = (Inr u, host') \<longrightarrow>
      (\<exists>p wb. calls host' = calls host @ io_calls (connection_string server catalog) p wb \<and>
         files host' = files host @ [(p, Saved wb)] \<and>
         stdout host' = stdout host @ [''Data Dictionary Created: '' @ p]))"
proof -
  have c1: "\<forall>e. connect w (calls host) (connection_string server catalog) = Inl e \<longrightarrow>
      discoverdb w server catalog directory host = (Inl e, logged (Connect (connection_string server catalog)) host)"
    by (simp add: discoverdb_def DBService_init_def Let_def)
  have c2: "\<forall>db e h. connect w (calls host) (connection_string server catalog) = Inr db \<and>
      bootstrap w \<lparr> conn = db, dbname = DATABASE_NAME db \<rparr> (logged (Connect (connection_string server catalog)) host) =
        (Inl e, h) \<longrightarrow>
      discoverdb w server catalog directory host = (Inl e, h)"
    by (simp add: discoverdb_def DBService_init_def Let_def)
  have c3: "\<forall>db ch e h. connect w (calls host) (connection_string server catalog) = Inr db \<and>
      bootstrap w \<lparr> conn = db, dbname = DATABASE_NAME db \<rparr> (logged (Connect (connection_string server catalog)) host) =
        (Inr ch, h) \<and>
      run_tables w ch (tables ch)
        \<lparr> fullpath = directory @ [CHR 0x5C] @ DATABASE_NAME db @ ''_DataDictionary.xlsx'',
          wkbk = [] \<rparr> = Inl e \<longrightarrow>
      discoverdb w server catalog directory host = (Inl e, h)"
    by (simp add: discoverdb_def DBService_init_def XLService_init_eq DDSpider_init_def
          run_def Let_def)
  have c4: "\<forall>db ch xl e h. connect w (calls host) (connection_string server catalog) = Inr db \<and>
      bootstrap w \<lparr> conn = db, dbname = DATABASE_NAME db \<rparr> (logged (Connect (connection_string server catalog)) host) =
        (Inr ch, h) \<and>
      run_tables w ch (tables ch)
        \<lparr> fullpath = directory @ [CHR 0x5C] @ DATABASE_NAME db @ ''_DataDictionary.xlsx'',
          wkbk = [] \<rparr> = Inr xl \<and>
      save_fails w (calls h) (fullpath xl) (wkbk xl) = Some e \<longrightarrow>
      (\<exists>host'. discoverdb w server catalog directory host = (Inl e, host') \<and>
         calls host' = calls h @ [Save (fullpath xl) (wkbk xl)] \<and>
         stdout host' = stdout h \<and>
         files host' = files h @
           (if save_leaves_file w (calls h) (fullpath xl) (wkbk xl)
            then [(fullpath xl, Broken)] else []))"
    by (simp add: discoverdb_def DBService_init_def XLService_init_eq DDSpider_init_def
          run_def save_def Let_def)
  have c5: "\<forall>svc h e. execute_fails w (calls h) SELECT_TABLES = Some e \<longrightarrow>
      bootstrap w svc h = (Inl e, logged (Execute SELECT_TABLES) h)"
    using bootstrap_fails_tables by blast
  have c6: "\<forall>svc h e. execute_fails w (calls h) SELECT_TABLES = None \<and>
      execute_fails w (calls h @ [Execute SELECT_TABLES]) SELECT_COLUMNS = Some e \<longrightarrow>
      bootstrap w svc h =
        (Inl e, logged (Execute SELECT_COLUMNS) (logged (Execute SELECT_TABLES) h))"
    using bootstrap_fails_columns by blast
  have c7: "\<forall>svc h e. execute_fails w (calls h) SELECT_TABLES = None \<and>
      execute_fails w (calls h @ [Execute SELECT_TABLES]) SELECT_COLUMNS = None \<and>
      execute_fails w (calls h @ [Execute SELECT_TABLES, Execute SELECT_COLUMNS])
        SELECT_CONSTRAINTS = Some e \<longrightarrow>
      bootstrap w svc h =
        (Inl e, logged (Execute SELECT_CONSTRAINTS)
           (logged (Execute SELECT_COLUMNS) (logged (Execute SELECT_TABLES) h)))"
    using bootstrap_fails_constraints by blast
  have c8: "\<forall>svc h e. execute_fails w (calls h) SELECT_TABLES = None \<and>
      execute_fails w (calls h @ [Execute SELECT_TABLES]) SELECT_COLUMNS = None \<and>
      execute_fails w (calls h @ [Execute SELECT_TABLES, Execute SELECT_COLUMNS])
        SELECT_CONSTRAINTS = None \<and>
      close_fails w (calls h @ [Execute SELECT_TABLES, Execute SELECT_COLUMNS,
        Execute SELECT_CONSTRAINTS]) = Some e \<longrightarrow>
      bootstrap w svc h =
        (Inl e, logged Close (logged (Execute SELECT_CONSTRAINTS)
           (logged (Execute SELECT_COLUMNS) (logged (Execute SELECT_TABLES) h))))"
    using bootstrap_fails_close by blast
  have c9: "\<forall>ch T rest xl e. describe_table w xl (build_desc ch T) = Inl e \<longrightarrow>
      run_tables w ch (T # rest) xl = Inl e"
    by simp
  have c10: "\<forall>ch T rest xl xl1 e. describe_table w xl (build_desc ch T) = Inr xl1 \<and>
      run_tables w ch rest xl1 = Inl e \<longrightarrow> run_tables w ch (T # rest) xl = Inl e"
    by simp
  have c11: "\<forall>xl d e. sheet_title w (map title (wkbk xl)) (table_name d) = Inl e \<longrightarrow>
      describe_table w xl d = Inl e"
    by (simp add: describe_table_def add_sheet_def create_sheet_def)
  have c12: "\<forall>xl d t'. sheet_title w (map title (wkbk xl)) (table_name d) = Inr t' \<and>
      table_name d \<notin> set (map title (wkbk xl) @ [t']) \<longrightarrow>
      describe_table w xl d = Inl KeyError"
  proof (intro allI impI)
    fix xl :: XLService and d :: TableDescription and t'
    assume a: "sheet_title w (map title (wkbk xl)) (table_name d) = Inr t' \<and>
      table_name d \<notin> set (map title (wkbk xl) @ [t'])"
    then have "find_sheet (wkbk xl @ [\<lparr>title = t', cells = []\<rparr>]) (table_name d) = None"
      by (auto simp: find_sheet_None)
    then show "describe_table w xl d = Inl KeyError"
      using a by (simp add: describe_table_def add_sheet_def create_sheet_def
                    get_sheet_by_name_def)
  qed
  have c13: "\<forall>e host'. discoverdb w server catalog directory host = (Inl e, host') \<longrightarrow>
      stdout host' = stdout host \<and>
      ((\<exists>n. 1 \<le> n \<and> n \<le> 5 \<and> calls host' = calls host @ take n (db_calls (connection_string server catalog)) \<and>
            files host' = files host) \<or>
       (\<exists>p wb. calls host' = calls host @ io_calls (connection_string server catalog) p wb \<and>
            (files host' = files host \<or> files host' = files host @ [(p, Broken)])))"
  proof (intro allI impI)
    fix e host' assume "discoverdb w server catalog directory host = (Inl e, host')"
    from discoverdb_log [OF this]
    show "stdout host' = stdout host \<and>
      ((\<exists>n. 1 \<le> n \<and> n \<le> 5 \<and> calls host' = calls host @ take n (db_calls (connection_string server catalog)) \<and>
            files host' = files host) \<or>
       (\<exists>p wb. calls host' = calls host @ io_calls (connection_string server catalog) p wb \<and>
            (files host' = files host \<or> files host' = files host @ [(p, Broken)])))"
    proof (elim disjE exE conjE)
      fix n e'
      assume "1 \<le> n" "n \<le> 5" "calls host' = calls host @ take n (db_calls (connection_string server catalog))"
        "files host' = files host" "stdout host' = stdout host"
      then show ?thesis by blast
    next
      fix db ch h xl
      assume cl: "calls host' = calls host @ io_calls (connection_string server catalog) (fullpath xl) (wkbk xl)"
        and s: "case save_fails w (calls h) (fullpath xl) (wkbk xl) of
               Some e' \<Rightarrow> Inl e = Inl e' \<and> stdout host' = stdout host \<and>
                 files host' = files host @
                   (if save_leaves_file w (calls h) (fullpath xl) (wkbk xl)
                    then [(fullpath xl, Broken)] else [])
             | None \<Rightarrow> Inl e = Inr () \<and>
                 stdout host' = stdout host @ [''Data Dictionary Created: '' @ fullpath xl] \<and>
                 files host' = files host @ [(fullpath xl, Saved (wkbk xl))]"
      from s have "stdout host' = stdout host"
        and "files host' = files host \<or> files host' = files host @ [(fullpath xl, Broken)]"
        by (auto split: option.splits if_splits)
      with cl show ?thesis by blast
    qed
  qed
  have c14: "\<forall>u host'. discoverdb w server catalog directory host = (Inr u, host') \<longrightarrow>
      (\<exists>p wb. calls host' = calls host @ io_calls (connection_string server catalog) p wb \<and>
         files host' = files host @ [(p, Saved wb)] \<and>
         stdout host' = stdout host @ [''Data Dictionary Created: '' @ p])"
  proof (intro allI impI)
    fix u host' assume "discoverdb w server catalog directory host = (Inr u, host')"
    from discoverdb_log [OF this]
    show "\<exists>p wb. calls host' = calls host @ io_calls (connection_string server catalog) p wb \<and>
         files host' = files host @ [(p, Saved wb)] \<and>
         stdout host' = stdout host @ [''Data Dictionary Created: '' @ p]"
      by (auto split: option.splits)
  qed
  show ?thesis
    by (intro conjI) (fact c1 c2 c3 c4 c5 c6 c7 c8 c9 c10 c11 c12 c13 c14)+
qed

theorem no_error_is_caught_witness:
  "discoverdb busy_server ''srv'' ''Shop'' ''C:'' host0 =
     (Inl DatabaseError, logged (Connect (connection_string ''srv'' ''Shop'')) host0) \<and>
   connect busy_server (calls (logged (Connect (connection_string ''srv'' ''Shop'')) host0))
     (connection_string ''srv'' ''Shop'') = Inr demo_db \<and>
   (\<exists>host' wb. discoverdb disk_full ''srv'' ''Shop'' ''C:'' host0 = (Inl SaveError, host') \<and>
      calls host' = [Connect (connection_string ''srv'' ''Shop''), Execute SELECT_TABLES,
                     Execute SELECT_COLUMNS, Execute SELECT_CONSTRAINTS, Close,
                     Save (''C:'' @ [CHR 0x5C] @ ''Shop_DataDictionary.xlsx'') wb] \<and>
      length wb = 3 \<and> stdout host' = [] \<and>
      files host' = [(''C:'' @ [CHR 0x5C] @ ''Shop_DataDictionary.xlsx'', Broken)])"
proof -
  have "connect busy_server (calls host0) (connection_string ''srv'' ''Shop'') = Inl DatabaseError"
    by (simp add: busy_server_def host0_def)
  then have a: "discoverdb busy_server ''srv'' ''Shop'' ''C:'' host0 =
     (Inl DatabaseError, logged (Connect (connection_string ''srv'' ''Shop'')) host0)"
    by (rule no_error_is_caught [where w = busy_server and server = "''srv''"
          and catalog = "''Shop''" and directory = "''C:''" and host = host0,
          THEN conjunct1, rule_format])
  have a2: "connect busy_server (calls (logged (Connect (connection_string ''srv'' ''Shop'')) host0))
     (connection_string ''srv'' ''Shop'') = Inr demo_db"
    by (simp add: busy_server_def)
  have cn: "connect disk_full (calls host0) (connection_string ''srv'' ''Shop'') = Inr demo_db"
    by (simp add: disk_full_def connect_demo)
  have q: "\<forall>h q. execute_fails disk_full h q = None" "\<forall>h. close_fails disk_full h = None"
    using demo_world_queries by (simp_all add: disk_full_def)
  obtain ch h where b: "bootstrap disk_full \<lparr> conn = demo_db, dbname = DATABASE_NAME demo_db \<rparr>
       (logged (Connect (connection_string ''srv'' ''Shop'')) host0) = (Inr ch, h)"
    using bootstrap_total [OF q] by blast
  have t: "tables ch = [''Users'', ''Orgs'', ''Empty'']"
    using bootstrap_tables [OF b] select_tables_demo by simp
  note bh = bootstrap_host [OF b]
  have acc: "\<forall>T \<in> set [''Users'', ''Orgs'', ''Empty'']. \<forall>names.
          \<exists>t'. sheet_title disk_full names T = Inr t' \<and> (T \<notin> set names \<longrightarrow> t' = T)"
    using accepts_demo by (simp add: accepts_def disk_full_def)
  obtain xl where r: "run_tables disk_full ch (tables ch)
        \<lparr> fullpath = ''C:'' @ [CHR 0x5C] @ DATABASE_NAME demo_db @ ''_DataDictionary.xlsx'',
          wkbk = [] \<rparr> = Inr xl"
    using run_tables_total [OF acc, of ch] unfolding t by blast
  have fp: "fullpath xl = ''C:'' @ [CHR 0x5C] @ ''Shop_DataDictionary.xlsx''"
    using run_tables_fullpath [OF r] by (simp add: demo_db_def)
  have ln: "length (wkbk xl) = 3" using run_tables_length [OF r] t by simp
  have s: "save_fails disk_full (calls h) (fullpath xl) (wkbk xl) = Some SaveError"
    by (simp add: disk_full_def)
  have lv: "save_leaves_file disk_full (calls h) (fullpath xl) (wkbk xl)"
    by (simp add: disk_full_def demo_world_def)
  have "\<forall>db ch xl e h. connect disk_full (calls host0) (connection_string ''srv'' ''Shop'') = Inr db \<and>
      bootstrap disk_full \<lparr> conn = db, dbname = DATABASE_NAME db \<rparr>
        (logged (Connect (connection_string ''srv'' ''Shop'')) host0) = (Inr ch, h) \<and>
      run_tables disk_full ch (tables ch)
        \<lparr> fullpath = ''C:'' @ [CHR 0x5C] @ DATABASE_NAME db @ ''_DataDictionary.xlsx'',
          wkbk = [] \<rparr> = Inr xl \<and>
      save_fails disk_full (calls h) (fullpath xl) (wkbk xl) = Some e \<longrightarrow>
      (\<exists>host'. discoverdb disk_full ''srv'' ''Shop'' ''C:'' host0 = (Inl e, host') \<and>
         calls host' = calls h @ [Save (fullpath xl) (wkbk xl)] \<and>
         stdout host' = stdout h \<and>
         files host' = files h @
           (if save_leaves_file disk_full (calls h) (fullpath xl) (wkbk xl)
            then [(fullpath xl, Broken)] else []))"
    by (rule no_error_is_caught [where w = disk_full and server = "''srv''"
          and catalog = "''Shop''" and directory = "''C:''" and host = host0,
          THEN conjunct2, THEN conjunct2, THEN conjunct2, THEN conjunct1])
  then have "\<exists>host'. discoverdb disk_full ''srv'' ''Shop'' ''C:'' host0 = (Inl SaveError, host') \<and>
         calls host' = calls h @ [Save (fullpath xl) (wkbk xl)] \<and>
         stdout host' = stdout h \<and>
         files host' = files h @
           (if save_leaves_file disk_full (calls h) (fullpath xl) (wkbk xl)
            then [(fullpath xl, Broken)] else [])"
    using cn b r s by blast
  then obtain host' where
    d: "discoverdb disk_full ''srv'' ''Shop'' ''C:'' host0 = (Inl SaveError, host')"
    and x: "calls host' = calls h @ [Save (fullpath xl) (wkbk xl)]" "stdout host' = stdout h"
       "files host' = files h @ [(fullpath xl, Broken)]"
    using lv by auto
  have y: "calls host' = [Connect (connection_string ''srv'' ''Shop''), Execute SELECT_TABLES,
                     Execute SELECT_COLUMNS, Execute SELECT_CONSTRAINTS, Close,
                     Save (fullpath xl) (wkbk xl)]"
       "stdout host' = []" "files host' = [(fullpath xl, Broken)]"
    using x bh by (simp_all add: host0_def)
  have b2: "\<exists>host' wb. discoverdb disk_full ''srv'' ''Shop'' ''C:'' host0 = (Inl SaveError, host') \<and>
      calls host' = [Connect (connection_string ''srv'' ''Shop''), Execute SELECT_TABLES,
                     Execute SELECT_COLUMNS, Execute SELECT_CONSTRAINTS, Close,
                     Save (''C:'' @ [CHR 0x5C] @ ''Shop_DataDictionary.xlsx'') wb] \<and>
      length wb = 3 \<and> stdout host' = [] \<and>
      files host' = [(''C:'' @ [CHR 0x5C] @ ''Shop_DataDictionary.xlsx'', Broken)]"
    apply (rule exI [of _ host'], rule exI [of _ "wkbk xl"])
    using d y ln unfolding fp by (intro conjI)
  from a a2 b2 show ?thesis by (intro conjI)
qed

lemma get_tables_no_sysdiagrams:
  "get_tables w svc h = (Inr ts, h') \<Longrightarrow> ''sysdiagrams'' \<notin> set ts"
  by (auto simp: get_tables_def select_tables_def split: option.splits)

lemma get_columns_no_sysdiagrams:
  "get_columns w svc h = (Inr cs, h') \<Longrightarrow> \<forall>c \<in> set cs. TABLE_NAME c \<noteq> ''sysdiagrams''"
  by (auto simp: get_columns_def select_columns_def split: option.splits)

lemma get_constraints_no_sysdiagrams:
  "get_constraints w svc h = (Inr ks, h') \<Longrightarrow>
   \<forall>k \<in> set ks. CONSTRAINED_TABLE k \<noteq> ''sysdiagrams''"
  by (auto simp: get_constraints_def select_constraints_def split: option.splits)

lemma list_all2_titles:
  assumes "list_all2 (\<lambda>T t'. \<exists>names. sheet_title w names T = Inr t') ts new"
      and "''sysdiagrams'' \<notin> set ts"
      and "\<forall>names t. t \<noteq> ''sysdiagrams'' \<longrightarrow> sheet_title w names t \<noteq> Inr ''sysdiagrams''"
  shows "''sysdiagrams'' \<notin> set new"
  using assms by (induction ts new rule: list_all2_induct) auto

lemma discoverdb_saved:
  assumes "discoverdb w server catalog directory host = (Inr u, host')"
  shows "\<exists>db ch h wb.
           connect w (calls host) (connection_string server catalog) = Inr db \<and>
           bootstrap w \<lparr> conn = db, dbname = DATABASE_NAME db \<rparr>
             (logged (Connect (connection_string server catalog)) host) = (Inr ch, h) \<and>
           files host' = files host @
             [(directory @ [CHR 0x5C] @ DATABASE_NAME db @ ''_DataDictionary.xlsx'', Saved wb)] \<and>
           (\<forall>T \<in> set (tables ch). described ch wb T) \<and>
           list_all2 (\<lambda>T t'. \<exists>names. sheet_title w names T = Inr t') (tables ch) (map title wb)"
proof -
  from assms obtain db ch xl' h where
    c: "connect w (calls host) (connection_string server catalog) = Inr db" and
    b: "bootstrap w \<lparr> conn = db, dbname = DATABASE_NAME db \<rparr>
          (logged (Connect (connection_string server catalog)) host) = (Inr ch, h)" and
    r: "run_tables w ch (tables ch)
       \<lparr> fullpath = directory @ [CHR 0x5C] @ DATABASE_NAME db @ ''_DataDictionary.xlsx'',
         wkbk = [] \<rparr> = Inr xl'" and
    f: "files host' = files h @ [(fullpath xl', Saved (wkbk xl'))]"
    by (rule discoverdb_Inr)
  have fh: "files h = files host" using bootstrap_host(2) [OF b] by simp
  from run_tables_post [OF r] have
    "\<forall>T \<in> set (tables ch). described ch (wkbk xl') T"
    "fullpath xl' = directory @ [CHR 0x5C] @ DATABASE_NAME db @ ''_DataDictionary.xlsx''"
    "list_all2 (\<lambda>T t'. \<exists>names. sheet_title w names T = Inr t') (tables ch) (map title (wkbk xl'))"
    by auto
  then show ?thesis using c b f fh by auto
qed

text \<open>
  C8. The diagram table \<open>sysdiagrams\<close> is in none of the three lists the queries
  return, whatever the catalog holds, hence in none of the lists of the cache; and the
  workbook a completed run saves has no worksheet of that title, provided the workbook
  library gives no sheet the title \<open>sysdiagrams\<close> when it is asked for another one.
  The witness is the example, whose catalog lists \<open>sysdiagrams\<close> as a base table with
  a column and a primary key.
\<close>

theorem sysdiagrams_excluded:
  "(\<forall>h ts h'. get_tables w svc h = (Inr ts, h') \<longrightarrow> ''sysdiagrams'' \<notin> set ts) \<and>
   (\<forall>h cs h'. get_columns w svc h = (Inr cs, h') \<longrightarrow>
      (\<forall>c \<in> set cs. TABLE_NAME c \<noteq> ''sysdiagrams'')) \<and>
   (\<forall>h ks h'. get_constraints w svc h = (Inr ks, h') \<longrightarrow>
      (\<forall>k \<in> set ks. CONSTRAINED_TABLE k \<noteq> ''sysdiagrams'')) \<and>
   (\<forall>h ch h'. bootstrap w svc h = (Inr ch, h') \<longrightarrow>
      ''sysdiagrams'' \<notin> set (tables ch) \<and>
      (\<forall>c \<in> set (columns ch). TABLE_NAME c \<noteq> ''sysdiagrams'') \<and>
      (\<forall>k \<in> set (constraints ch). CONSTRAINED_TABLE k \<noteq> ''sysdiagrams'')) \<and>
   ((\<forall>names t. t \<noteq> ''sysdiagrams'' \<longrightarrow> sheet_title w names t \<noteq> Inr ''sysdiagrams'') \<longrightarrow>
    (\<forall>u host'. discoverdb w server catalog directory host = (Inr u, host') \<longrightarrow>
       (\<exists>p wb. files host' = files host @ [(p, Saved wb)] \<and>
          ''sysdiagrams'' \<notin> set (map title wb))))"
proof -
  have c4: "\<forall>h ch h'. bootstrap w svc h = (Inr ch, h') \<longrightarrow>
      ''sysdiagrams'' \<notin> set (tables ch) \<and>
      (\<forall>c \<in> set (columns ch). TABLE_NAME c \<noteq> ''sysdiagrams'') \<and>
      (\<forall>k \<in> set (constraints ch). CONSTRAINED_TABLE k \<noteq> ''sysdiagrams'')"
  proof (intro allI impI)
    fix h ch h' assume b: "bootstrap w svc h = (Inr ch, h')"
    then obtain h1 h2 h3 where
      a: "get_tables w svc h = (Inr (tables ch), h1)"
         "get_columns w svc h1 = (Inr (columns ch), h2)"
         "get_constraints w svc h2 = (Inr (constraints ch), h3)"
      by (rule bootstrap_Inr)
    have 1: "''sysdiagrams'' \<notin> set (tables ch)"
      by (rule get_tables_no_sysdiagrams [OF a(1)])
    have 2: "\<forall>c \<in> set (columns ch). TABLE_NAME c \<noteq> ''sysdiagrams''"
      by (rule get_columns_no_sysdiagrams [OF a(2)])
    have 3: "\<forall>k \<in> set (constraints ch). CONSTRAINED_TABLE k \<noteq> ''sysdiagrams''"
      by (rule get_constraints_no_sysdiagrams [OF a(3)])
    from 1 2 3 show "''sysdiagrams'' \<notin> set (tables ch) \<and>
      (\<forall>c \<in> set (columns ch). TABLE_NAME c \<noteq> ''sysdiagrams'') \<and>
      (\<forall>k \<in> set (constraints ch). CONSTRAINED_TABLE k \<noteq> ''sysdiagrams'')"
      by (intro conjI)
  qed
  have c5: "(\<forall>names t. t \<noteq> ''sysdiagrams'' \<longrightarrow> sheet_title w names t \<noteq> Inr ''sysdiagrams'') \<longrightarrow>
    (\<forall>u host'. discoverdb w server catalog directory host = (Inr u, host') \<longrightarrow>
       (\<exists>p wb. files host' = files host @ [(p, Saved wb)] \<and>
          ''sysdiagrams'' \<notin> set (map title wb)))"
  proof (intro allI impI)
    fix u host'
    assume lib: "\<forall>names t. t \<noteq> ''sysdiagrams'' \<longrightarrow> sheet_title w names t \<noteq> Inr ''sysdiagrams''"
      and d: "discoverdb w server catalog directory host = (Inr u, host')"
    from discoverdb_saved [OF d] obtain db ch h wb where
      b: "bootstrap w \<lparr> conn = db, dbname = DATABASE_NAME db \<rparr>
            (logged (Connect (connection_string server catalog)) host) = (Inr ch, h)" and
      f: "files host' = files host @
             [(directory @ [CHR 0x5C] @ DATABASE_NAME db @ ''_DataDictionary.xlsx'', Saved wb)]" and
      l: "list_all2 (\<lambda>T t'. \<exists>names. sheet_title w names T = Inr t') (tables ch) (map title wb)"
      by blast
    have "''sysdiagrams'' \<notin> set (tables ch)"
      using b by (auto elim!: bootstrap_Inr dest: get_tables_no_sysdiagrams)
    then have "''sysdiagrams'' \<notin> set (map title wb)"
      using list_all2_titles [OF l _ lib] by blast
    with f show "\<exists>p wb. files host' = files host @ [(p, Saved wb)] \<and>
          ''sysdiagrams'' \<notin> set (map title wb)"
      by blast
  qed
  have c1: "\<forall>h ts h'. get_tables w svc h = (Inr ts, h') \<longrightarrow> ''sysdiagrams'' \<notin> set ts"
    by (intro allI impI) (rule get_tables_no_sysdiagrams)
  have c2: "\<forall>h cs h'. get_columns w svc h = (Inr cs, h') \<longrightarrow>
      (\<forall>c \<in> set cs. TABLE_NAME c \<noteq> ''sysdiagrams'')"
    by (intro allI impI) (rule get_columns_no_sysdiagrams)
  have c3: "\<forall>h ks h'. get_constraints w svc h = (Inr ks, h') \<longrightarrow>
      (\<forall>k \<in> set ks. CONSTRAINED_TABLE k \<noteq> ''sysdiagrams'')"
    by (intro allI impI) (rule get_constraints_no_sysdiagrams)
  show ?thesis
    by (intro conjI) (fact c1 c2 c3 c4 c5)+
qed

theorem sysdiagrams_excluded_witness:
  "''sysdiagrams'' \<in> set (map T_TABLE_NAME (TABLES demo_db)) \<and>
   fst (get_tables demo_world \<lparr> conn = demo_db, dbname = ''Shop'' \<rparr> host0) =
     Inr [''Users'', ''Orgs'', ''Empty''] \<and>
   (\<exists>host' p wb. discoverdb demo_world ''srv'' ''Shop'' ''C:'' host0 = (Inr (), host') \<and>
      files host' = [(p, Saved wb)] \<and> ''sysdiagrams'' \<notin> set (map title wb))"
proof -
  have a: "''sysdiagrams'' \<in> set (map T_TABLE_NAME (TABLES demo_db))"
    by (simp add: demo_db_def)
  have g: "fst (get_tables demo_world \<lparr> conn = demo_db, dbname = ''Shop'' \<rparr> host0) =
     Inr [''Users'', ''Orgs'', ''Empty'']"
    by (simp add: get_tables_def demo_world_def select_tables_demo)
  have lib: "\<forall>names t. t \<noteq> ''sysdiagrams'' \<longrightarrow> sheet_title demo_world names t \<noteq> Inr ''sysdiagrams''"
    by (auto simp: demo_world_def)
  obtain host' where d: "discoverdb demo_world ''srv'' ''Shop'' ''C:'' host0 = (Inr (), host')"
    using discoverdb_demo by blast
  have "\<exists>p wb. files host' = files host0 @ [(p, Saved wb)] \<and> ''sysdiagrams'' \<notin> set (map title wb)"
    using sysdiagrams_excluded [of demo_world "\<lparr> conn = demo_db, dbname = ''Shop'' \<rparr>"
            "''srv''" "''Shop''" "''C:''" host0] lib d
    by blast
  then have "\<exists>p wb. files host' = [(p, Saved wb)] \<and> ''sysdiagrams'' \<notin> set (map title wb)"
    by (simp add: host0_def)
  with a g d show ?thesis by blast
qed

text \<open>
  C9. A table of the table list that has no column in the column collection gets a
  description with no field; describing it raises only what creating or finding its
  sheet raises; the run completes whenever the workbook library accepts the titles and
  the save; and in the workbook of every completed run the sheet of the table holds the
  header row and nothing else.
\<close>

theorem empty_table_sheet:
  assumes "wkbk (xlservice self) = []"
      and "T \<in> set (tables (cache self))"
      and "get_columns_for_table (cache self) T = []"
  shows "fields' (build_desc (cache self) T) = [] \<and>
         (\<forall>xl e. describe_table w xl (build_desc (cache self) T) = Inl e \<longrightarrow>
                  add_sheet w xl T = Inl e) \<and>
         (accepts w (tables (cache self)) \<longrightarrow>
            (\<exists>self' host'. run w self host = (Inr self', host'))) \<and>
         (\<forall>self' host'. run w self host = (Inr self', host') \<longrightarrow>
            (\<exists>i. get_sheet_by_name (wkbk (xlservice self')) T = Inr i \<and>
                 max_row (wkbk (xlservice self') ! i) = 1 \<and>
                 ws_values (wkbk (xlservice self') ! i) =
                   [map PStr (headers (TableDescription_init T))]))"
proof -
  have c1: "fields' (build_desc (cache self) T) = []"
    using assms(3) by simp
  have c2: "\<forall>xl e. describe_table w xl (build_desc (cache self) T) = Inl e \<longrightarrow>
                  add_sheet w xl T = Inl e"
    by (auto simp: describe_table_def Let_def split: sum.splits prod.splits)
  have ne: "tables (cache self) \<noteq> []" using assms(2) by auto
  have c3: "accepts w (tables (cache self)) \<longrightarrow>
            (\<exists>self' host'. run w self host = (Inr self', host'))"
    using run_total [OF _ ne] by blast
  have c4: "\<forall>self' host'. run w self host = (Inr self', host') \<longrightarrow>
            (\<exists>i. get_sheet_by_name (wkbk (xlservice self')) T = Inr i \<and>
                 max_row (wkbk (xlservice self') ! i) = 1 \<and>
                 ws_values (wkbk (xlservice self') ! i) =
                   [map PStr (headers (TableDescription_init T))])"
  proof (intro allI impI)
    fix self' host' assume "run w self host = (Inr self', host')"
    then obtain xl where
      r: "run_tables w (cache self) (tables (cache self)) (xlservice self) = Inr xl"
      and s: "self' = self\<lparr>xlservice := xl\<rparr>"
      by (rule run_unfold)
    have "described (cache self) (wkbk xl) T"
      using run_tables_post [OF r] assms(1,2) by simp
    from described_values [OF this] assms(3)
    show "\<exists>i. get_sheet_by_name (wkbk (xlservice self')) T = Inr i \<and>
                 max_row (wkbk (xlservice self') ! i) = 1 \<and>
                 ws_values (wkbk (xlservice self') ! i) =
                   [map PStr (headers (TableDescription_init T))]"
      by (auto simp: s table_rows_def)
  qed
  from c1 c2 c3 c4 show ?thesis by blast
qed

theorem empty_table_sheet_witness:
  "get_columns_for_table demo_cache ''Empty'' = [] \<and>
   (\<exists>self' host' i. run demo_world demo_spider host0 = (Inr self', host') \<and>
      get_sheet_by_name (wkbk (xlservice self')) ''Empty'' = Inr i \<and>
      max_row (wkbk (xlservice self') ! i) = 1 \<and>
      ws_values (wkbk (xlservice self') ! i) =
        [[PStr ''Primary/Foreign Key'', PStr ''Field Name'', PStr ''Caption'',
          PStr ''Data Type'', PStr ''Field Size'', PStr ''Default'', PStr ''Nullable'',
          PStr ''Unique'', PStr ''Reference'', PStr ''Notes'']])"
proof -
  have c: "cache demo_spider = demo_cache" and x: "wkbk (xlservice demo_spider) = []"
    by (simp_all add: demo_spider_def DDSpider_init_def)
  have t: "tables demo_cache = [''Links'', ''Users'', ''Empty'']"
    by (simp add: demo_cache_def)
  have e: "get_columns_for_table demo_cache ''Empty'' = []"
    by (simp add: get_columns_for_table_def demo_cache_def demo_columns_def)
  have m: "''Empty'' \<in> set (tables (cache demo_spider))" by (simp add: c t)
  note th = empty_table_sheet [of demo_spider "''Empty''" demo_world host0, OF x m, unfolded c, OF e]
  have "accepts demo_world (tables demo_cache)" unfolding t by (rule accepts_demo_cache)
  with th obtain self' host' where r: "run demo_world demo_spider host0 = (Inr self', host')"
    by blast
  with th obtain i where "get_sheet_by_name (wkbk (xlservice self')) ''Empty'' = Inr i"
      "max_row (wkbk (xlservice self') ! i) = 1"
      "ws_values (wkbk (xlservice self') ! i) = [map PStr (headers (TableDescription_init ''Empty''))]"
    by blast
  with e r show ?thesis by (auto simp: TableDescription_init_def)
qed

end
